theory Spec2Isabelle
  imports Main
begin

section \<open>Ledger client values\<close>

text \<open>
  The packages \<^verbatim>\<open>@solana/web3.js\<close> and \<^verbatim>\<open>@solana/spl-token\<close> are not part of the
  repository. Their values are embedded as free constructors that record the arguments
  they were built from: a public key is either parsed from a string or derived as the
  associated token address of a mint and an owner; an instruction records which library
  builder made it. The exceptions these libraries throw (a malformed address, an owner
  off the curve, an amount that does not encode) are added in the last section of the
  definitions, as a parameter. JavaScript numbers are embedded as \<open>int\<close>: amounts and
  capacities are integer-valued, of either sign.
\<close>

datatype PublicKey =
    PublicKey string
  | AssociatedTokenAddress PublicKey PublicKey

definition getAssociatedTokenAddressSync :: "PublicKey \<Rightarrow> PublicKey \<Rightarrow> PublicKey" where
  "getAssociatedTokenAddressSync mint owner = AssociatedTokenAddress mint owner"

datatype TransactionInstruction =
    SystemProgram_transfer PublicKey PublicKey int
  | createTransferInstruction PublicKey PublicKey PublicKey int
  | createAssociatedTokenAccountInstruction PublicKey PublicKey PublicKey PublicKey
  | TransactionInstruction "(PublicKey \<times> bool \<times> bool) list" string PublicKey

datatype Transaction = Transaction (instructions: "TransactionInstruction list")

datatype AccountInfo = AccountInfo int

datatype error = Error string

text \<open>
  \<open>connection.getAccountInfo\<close> is awaited: it either rejects with an error or resolves
  to the account's information, \<open>None\<close> being JavaScript's \<open>null\<close>.
\<close>

record Connection =
  getAccountInfo :: "PublicKey \<Rightarrow> error + AccountInfo option"

section \<open>types.ts\<close>

record ITransfer =
  recipient :: string
  amount :: int
  associatedTokenAccount :: "string option"

text \<open>
  An optional field is an \<open>option\<close>, \<open>None\<close> being \<open>undefined\<close>.
  \<open>IBulkSplTransferConfig\<close> has every field of \<open>IBulkSolTransferConfig\<close> and two more.
\<close>

record IBulkSolTransferConfig =
  sender :: PublicKey
  transfers :: "ITransfer list option"
  recipients :: "string list option"
  fixedAmount :: "int option"
  instructionsPerTx :: "int option"
  memo :: "string option"

record IBulkSplTransferConfig = IBulkSolTransferConfig +
  mint :: PublicKey
  decimals :: "int option"

section \<open>transaction-builder.ts\<close>

definition MEMO_PROGRAM_ID :: PublicKey where
  "MEMO_PROGRAM_ID = PublicKey ''MemoSq4gqABAXKb96qnH8TysNcWxMyWCqXgDLGmfcHr''"

definition createSolTransferInstruction ::
  "PublicKey \<Rightarrow> PublicKey \<Rightarrow> int \<Rightarrow> TransactionInstruction" where
  "createSolTransferInstruction from to amountLamports =
     SystemProgram_transfer from to amountLamports"

definition createSplTransferInstructionByOwners ::
  "PublicKey \<Rightarrow> PublicKey \<Rightarrow> PublicKey \<Rightarrow> int \<Rightarrow> TransactionInstruction" where
  "createSplTransferInstructionByOwners mnt fromOwner toOwner rawAmount =
     (let fromTokenAccount = getAssociatedTokenAddressSync mnt fromOwner;
          toTokenAccount = getAssociatedTokenAddressSync mnt toOwner
      in createTransferInstruction fromTokenAccount toTokenAccount fromOwner rawAmount)"

definition createMemoInstruction :: "string \<Rightarrow> PublicKey \<Rightarrow> TransactionInstruction" where
  "createMemoInstruction text signer =
     TransactionInstruction [(signer, True, True)] text MEMO_PROGRAM_ID"

definition createTokenAccountInstruction ::
  "PublicKey \<Rightarrow> PublicKey \<Rightarrow> PublicKey \<Rightarrow> TransactionInstruction \<times> PublicKey" where
  "createTokenAccountInstruction payer mnt owner =
     (let associatedAddress = getAssociatedTokenAddressSync mnt owner;
          instruction = createAssociatedTokenAccountInstruction payer associatedAddress owner mnt
      in (instruction, associatedAddress))"

definition buildTransaction :: "TransactionInstruction list \<Rightarrow> Transaction" where
  "buildTransaction ins = Transaction ins"

section \<open>The transfer loops\<close>

text \<open>
  JavaScript's \<open>%\<close> on integer-valued numbers: the result has the sign of the dividend,
  and a zero divisor gives \<open>NaN\<close> (here \<open>None\<close>), which is \<open>===\<close> to nothing.
\<close>

definition js_rem :: "int \<Rightarrow> int \<Rightarrow> int option" where
  "js_rem a b = (if b = 0 then None else Some (sgn a * (\<bar>a\<bar> mod \<bar>b\<bar>)))"

text \<open>A default value in a parameter list or a destructuring: it applies to \<open>undefined\<close>.\<close>

definition default_to :: "'a \<Rightarrow> 'a option \<Rightarrow> 'a" where
  "default_to d v = (case v of None \<Rightarrow> d | Some x \<Rightarrow> x)"

text \<open>The two local variables every generator mutates.\<close>

record builder =
  transactions :: "Transaction list"
  currentInstructions :: "TransactionInstruction list"

definition start :: builder where
  "start = \<lparr>transactions = [], currentInstructions = []\<rparr>"

definition push :: "TransactionInstruction \<Rightarrow> builder \<Rightarrow> builder" where
  "push ix b = b\<lparr>currentInstructions := currentInstructions b @ [ix]\<rparr>"

text \<open>
  The closure \<open>finalizeTransaction\<close> of \<open>generateBulkSolTransactions\<close> and of
  \<open>generateBulkSplTransactions\<close>; it reads \<open>memo\<close> and \<open>sender\<close> from the enclosing call.
\<close>

definition finalizeTransaction :: "string \<Rightarrow> PublicKey \<Rightarrow> builder \<Rightarrow> builder" where
  "finalizeTransaction mem sndr b =
     (if length (currentInstructions b) > 0
      then (let b1 = push (createMemoInstruction mem sndr) b
            in \<lparr>transactions = transactions b1 @ [buildTransaction (currentInstructions b1)],
                currentInstructions = []\<rparr>)
      else b)"

text \<open>
  One iteration of \<open>for (let i = 0; i < xs.length; i++)\<close> in a transfer generator:
  push the instruction built from \<open>xs[i]\<close>, then finalize when
  \<open>(i + 1) % instructionsPerTx === 0 || i === xs.length - 1\<close>. The four loops of the two
  generators differ only in the instruction they build, the parameter \<open>mk\<close>.
\<close>

definition transfer_iteration ::
  "('a \<Rightarrow> TransactionInstruction) \<Rightarrow> string \<Rightarrow> PublicKey \<Rightarrow> int \<Rightarrow> 'a list \<Rightarrow> nat \<Rightarrow> builder \<Rightarrow> builder" where
  "transfer_iteration mk mem sndr perTx xs i b =
     (let b1 = push (mk (xs ! i)) b
      in if js_rem (int i + 1) perTx = Some 0 \<or> int i = int (length xs) - 1
         then finalizeTransaction mem sndr b1
         else b1)"

definition transfer_loop ::
  "('a \<Rightarrow> TransactionInstruction) \<Rightarrow> string \<Rightarrow> PublicKey \<Rightarrow> int \<Rightarrow> 'a list \<Rightarrow> builder" where
  "transfer_loop mk mem sndr perTx xs =
     fold (transfer_iteration mk mem sndr perTx xs) [0..<length xs] start"

section \<open>bulk-sol-transfer.ts\<close>

definition DEFAULT_INSTRUCTIONS_PER_TX :: int where
  "DEFAULT_INSTRUCTIONS_PER_TX = 18"

definition DEFAULT_MEMO_SOL :: string where
  "DEFAULT_MEMO_SOL = ''Bulk SOL transfer''"

definition no_transfer_specification :: error where
  "no_transfer_specification =
     Error ''Either transfers or (recipients + fixedAmount) must be provided''"

definition generateBulkSolTransactions ::
  "'a IBulkSolTransferConfig_scheme \<Rightarrow> error + Transaction list" where
  "generateBulkSolTransactions config =
     (let sndr = sender config;
          perTx = default_to DEFAULT_INSTRUCTIONS_PER_TX (instructionsPerTx config);
          mem = default_to DEFAULT_MEMO_SOL (memo config)
      in if fixedAmount config \<noteq> None \<and> recipients config \<noteq> None
         then Inr (transactions (transfer_loop
                (\<lambda>r. createSolTransferInstruction sndr (PublicKey r) (the (fixedAmount config)))
                mem sndr perTx (the (recipients config))))
         else if transfers config \<noteq> None
         then Inr (transactions (transfer_loop
                (\<lambda>t. createSolTransferInstruction sndr (PublicKey (recipient t)) (amount t))
                mem sndr perTx (the (transfers config))))
         else Inl no_transfer_specification)"

section \<open>bulk-spl-transfer.ts\<close>

definition DEFAULT_INSTRUCTIONS_PER_TX_ACCOUNT_CREATION :: int where
  "DEFAULT_INSTRUCTIONS_PER_TX_ACCOUNT_CREATION = 12"

definition DEFAULT_INSTRUCTIONS_PER_TX_TRANSFER :: int where
  "DEFAULT_INSTRUCTIONS_PER_TX_TRANSFER = 18"

definition DEFAULT_MEMO :: string where
  "DEFAULT_MEMO = ''Bulk SPL transfer''"

definition generateBulkSplTransactions ::
  "'a IBulkSplTransferConfig_scheme \<Rightarrow> error + Transaction list" where
  "generateBulkSplTransactions config =
     (let sndr = sender config;
          mnt = mint config;
          perTx = default_to DEFAULT_INSTRUCTIONS_PER_TX_TRANSFER (instructionsPerTx config);
          mem = default_to DEFAULT_MEMO (memo config)
      in if fixedAmount config \<noteq> None \<and> recipients config \<noteq> None
         then Inr (transactions (transfer_loop
                (\<lambda>r. createSplTransferInstructionByOwners mnt sndr (PublicKey r) (the (fixedAmount config)))
                mem sndr perTx (the (recipients config))))
         else if transfers config \<noteq> None
         then Inr (transactions (transfer_loop
                (\<lambda>t. createSplTransferInstructionByOwners mnt sndr (PublicKey (recipient t)) (amount t))
                mem sndr perTx (the (transfers config))))
         else Inl no_transfer_specification)"

text \<open>
  One iteration of the loop of \<open>generateTokenAccountCreationTransactions\<close>. The awaited
  lookup may reject, which ends the call with that error.
\<close>

definition creation_iteration ::
  "'c Connection_scheme \<Rightarrow> PublicKey \<Rightarrow> PublicKey \<Rightarrow> string list \<Rightarrow> int \<Rightarrow> nat \<Rightarrow> builder \<Rightarrow> error + builder" where
  "creation_iteration connection mnt payer rcpts perTx i b =
     (let recipientPubkey = PublicKey (rcpts ! i);
          associatedAddress = getAssociatedTokenAddressSync mnt recipientPubkey
      in case getAccountInfo connection associatedAddress of
           Inl e \<Rightarrow> Inl e
         | Inr accountInfo \<Rightarrow>
             (let b1 = (if accountInfo = None
                        then push (fst (createTokenAccountInstruction payer mnt recipientPubkey)) b
                        else b)
              in if int (length (currentInstructions b1)) \<ge> perTx \<or> int i = int (length rcpts) - 1
                 then (if length (currentInstructions b1) > 0
                       then Inr \<lparr>transactions = transactions b1 @ [buildTransaction (currentInstructions b1)],
                                currentInstructions = []\<rparr>
                       else Inr b1)
                 else Inr b1))"

text \<open>A \<open>for\<close> loop whose body may throw: the first error ends it.\<close>

fun for_each :: "(nat \<Rightarrow> 's \<Rightarrow> error + 's) \<Rightarrow> nat list \<Rightarrow> 's \<Rightarrow> error + 's" where
  "for_each body [] s = Inr s"
| "for_each body (i # is) s =
     (case body i s of Inl e \<Rightarrow> Inl e | Inr s' \<Rightarrow> for_each body is s')"

definition generateTokenAccountCreationTransactions ::
  "'c Connection_scheme \<Rightarrow> PublicKey \<Rightarrow> PublicKey \<Rightarrow> string list \<Rightarrow> int option \<Rightarrow> error + Transaction list" where
  "generateTokenAccountCreationTransactions connection mnt payer rcpts instructionsPerTx_arg =
     (let perTx = default_to DEFAULT_INSTRUCTIONS_PER_TX_ACCOUNT_CREATION instructionsPerTx_arg
      in case for_each (creation_iteration connection mnt payer rcpts perTx) [0..<length rcpts] start of
           Inl e \<Rightarrow> Inl e
         | Inr b \<Rightarrow> Inr (transactions b))"

record OrchestrationResult =
  accountCreationTxs :: "Transaction list"
  transferTxs :: "Transaction list"

definition no_recipient_specification :: error where
  "no_recipient_specification = Error ''Either transfers or recipients must be provided''"

text \<open>The local \<open>recipientList\<close> of \<open>generateCompleteBulkSplTransactions\<close>.\<close>

definition recipientList :: "'a IBulkSolTransferConfig_scheme \<Rightarrow> error + string list" where
  "recipientList config =
     (if recipients config \<noteq> None then Inr (the (recipients config))
      else if transfers config \<noteq> None then Inr (map recipient (the (transfers config)))
      else Inl no_recipient_specification)"

definition generateCompleteBulkSplTransactions ::
  "'c Connection_scheme \<Rightarrow> 'a IBulkSplTransferConfig_scheme \<Rightarrow> error + OrchestrationResult" where
  "generateCompleteBulkSplTransactions connection config =
     (case recipientList config of
        Inl e \<Rightarrow> Inl e
      | Inr rcpts \<Rightarrow>
          (case generateTokenAccountCreationTransactions connection (mint config) (sender config)
                  rcpts (instructionsPerTx config) of
             Inl e \<Rightarrow> Inl e
           | Inr creationTxs \<Rightarrow>
               (case generateBulkSplTransactions config of
                  Inl e \<Rightarrow> Inl e
                | Inr txs \<Rightarrow> Inr \<lparr>accountCreationTxs = creationTxs, transferTxs = txs\<rparr>)))"

section \<open>Notions used to state the properties\<close>

text \<open>A memo instruction is one addressed to the memo program.\<close>

fun isMemo :: "TransactionInstruction \<Rightarrow> bool" where
  "isMemo (TransactionInstruction keys text programId) = (programId = MEMO_PROGRAM_ID)"
| "isMemo _ = False"

definition contentOperations :: "Transaction \<Rightarrow> TransactionInstruction list" where
  "contentOperations t = filter (\<lambda>ix. \<not> isMemo ix) (instructions t)"

definition memoOperations :: "Transaction \<Rightarrow> TransactionInstruction list" where
  "memoOperations t = filter isMemo (instructions t)"

text \<open>
  A cut is placed after input index \<open>i\<close> when some leading transactions hold exactly the
  content operations of the inputs \<open>0, \<dots>, i\<close>.
\<close>

definition cut_after :: "Transaction list \<Rightarrow> nat \<Rightarrow> bool" where
  "cut_after txs i =
     (\<exists>j \<in> {..length txs}. length (concat (map contentOperations (take j txs))) = Suc i)"

text \<open>
  The sizes of a greedy left-to-right partition of \<open>n\<close> items at capacity \<open>c\<close>: full
  groups, then the remainder when there is one.
\<close>

definition partition_sizes :: "nat \<Rightarrow> nat \<Rightarrow> nat list" where
  "partition_sizes c n = replicate (n div c) c @ (if n mod c = 0 then [] else [n mod c])"

text \<open>
  The number of elements a transfer generator iterates over, by the order of its two
  tests: \<open>recipients\<close> when it and \<open>fixedAmount\<close> are defined, otherwise \<open>transfers\<close> when
  defined.
\<close>

definition request_count :: "'a IBulkSolTransferConfig_scheme \<Rightarrow> nat option" where
  "request_count config =
     (if fixedAmount config \<noteq> None \<and> recipients config \<noteq> None
      then Some (length (the (recipients config)))
      else if transfers config \<noteq> None
      then Some (length (the (transfers config)))
      else None)"

text \<open>The recipients whose lookup resolves to \<open>null\<close>: their token account is missing.\<close>

definition accountMissing :: "'c Connection_scheme \<Rightarrow> PublicKey \<Rightarrow> string \<Rightarrow> bool" where
  "accountMissing connection mnt r =
     (getAccountInfo connection (getAssociatedTokenAddressSync mnt (PublicKey r)) = Inr None)"

definition lookupRejects :: "'c Connection_scheme \<Rightarrow> PublicKey \<Rightarrow> string \<Rightarrow> bool" where
  "lookupRejects connection mnt r =
     isl (getAccountInfo connection (getAssociatedTokenAddressSync mnt (PublicKey r)))"

text \<open>
  The account-creation instructions of the recipients whose account is missing, in input
  order.
\<close>

definition provisioningOperations ::
  "'c Connection_scheme \<Rightarrow> PublicKey \<Rightarrow> PublicKey \<Rightarrow> string list \<Rightarrow> TransactionInstruction list" where
  "provisioningOperations connection mnt payer rcpts =
     map (\<lambda>r. fst (createTokenAccountInstruction payer mnt (PublicKey r)))
       (filter (accountMissing connection mnt) rcpts)"

subsection \<open>The partition the loops are compared with\<close>

text \<open>
  The greedy left-to-right partition into groups of \<open>c\<close> items, written independently
  of the loops; \<open>groups_done\<close> and \<open>group_open\<close> are its state after a prefix of the
  input: the full groups so far and the group still being filled.
\<close>

fun chunks_of :: "nat \<Rightarrow> 'a list \<Rightarrow> 'a list list" where
  "chunks_of c xs = (if c = 0 \<or> xs = [] then [] else take c xs # chunks_of c (drop c xs))"

definition groups_done :: "nat \<Rightarrow> 'a list \<Rightarrow> 'a list list" where
  "groups_done c xs = chunks_of c (take (length xs - length xs mod c) xs)"

definition group_open :: "nat \<Rightarrow> 'a list \<Rightarrow> 'a list" where
  "group_open c xs = drop (length xs - length xs mod c) xs"

text \<open>
  The group size a transfer loop over \<open>n\<close> items packs with, for any integer
  \<open>instructionsPerTx\<close>: with \<open>0\<close> the remainder test never holds and only the last index
  cuts; a negative value divides the same indices as its absolute value.
\<close>

definition transfer_capacity :: "int \<Rightarrow> nat \<Rightarrow> nat" where
  "transfer_capacity perTx n = (if perTx = 0 then Suc n else nat \<bar>perTx\<bar>)"

definition with_memo :: "string \<Rightarrow> PublicKey \<Rightarrow> TransactionInstruction list \<Rightarrow> Transaction" where
  "with_memo mem sndr ins = buildTransaction (ins @ [createMemoInstruction mem sndr])"

text \<open>
  What capacity-driven packing of \<open>n\<close> items at capacity \<open>c\<close> means for a list of
  transactions: \<open>ceil(n / c)\<close> of them, the content sizes of the greedy partition, and a
  cut after index \<open>i\<close> exactly when \<open>(i + 1) mod c = 0\<close> or \<open>i\<close> is the last index.
\<close>

definition fixed_capacity_packing :: "nat \<Rightarrow> nat \<Rightarrow> Transaction list \<Rightarrow> bool" where
  "fixed_capacity_packing c n txs =
     (length txs = (n + c - 1) div c \<and>
      map (\<lambda>t. length (contentOperations t)) txs = partition_sizes c n \<and>
      (\<forall>i \<in> {..<n}. cut_after txs i = (Suc i mod c = 0 \<or> i = n - 1)))"

text \<open>
  A transaction that holds exactly one memo instruction, the one built from the given
  text and signer, as its last instruction, after at least one other instruction.
\<close>

definition memo_terminated :: "string \<Rightarrow> PublicKey \<Rightarrow> Transaction \<Rightarrow> bool" where
  "memo_terminated mem sndr t =
     (memoOperations t = [createMemoInstruction mem sndr] \<and>
      instructions t \<noteq> [] \<and>
      last (instructions t) = createMemoInstruction mem sndr \<and>
      contentOperations t \<noteq> [])"

text \<open>
  The transfer instructions a generator builds, in the order of its loop: from
  \<open>recipients\<close> and \<open>fixedAmount\<close> in its first branch, from \<open>transfers\<close> in its second.
\<close>

definition solOperations :: "'a IBulkSolTransferConfig_scheme \<Rightarrow> TransactionInstruction list" where
  "solOperations config =
     (if fixedAmount config \<noteq> None \<and> recipients config \<noteq> None
      then map (\<lambda>r. createSolTransferInstruction (sender config) (PublicKey r) (the (fixedAmount config)))
             (the (recipients config))
      else map (\<lambda>t. createSolTransferInstruction (sender config) (PublicKey (recipient t)) (amount t))
             (the (transfers config)))"

definition splOperations :: "'a IBulkSplTransferConfig_scheme \<Rightarrow> TransactionInstruction list" where
  "splOperations config =
     (if fixedAmount config \<noteq> None \<and> recipients config \<noteq> None
      then map (\<lambda>r. createSplTransferInstructionByOwners (mint config) (sender config) (PublicKey r)
                  (the (fixedAmount config)))
             (the (recipients config))
      else map (\<lambda>t. createSplTransferInstructionByOwners (mint config) (sender config)
                  (PublicKey (recipient t)) (amount t))
             (the (transfers config)))"

text \<open>The token account a token transfer instruction pays into.\<close>

fun destination :: "TransactionInstruction \<Rightarrow> PublicKey option" where
  "destination (createTransferInstruction source dest owner rawAmount) = Some dest"
| "destination _ = None"

text \<open>
  The sizes of the two transaction lists of an orchestration: instructions per
  account-creation transaction, transfer instructions per transfer transaction.
\<close>

definition bundle_sizes :: "error + OrchestrationResult \<Rightarrow> error + nat list \<times> nat list" where
  "bundle_sizes result =
     map_sum id
       (\<lambda>res. (map (\<lambda>t. length (instructions t)) (accountCreationTxs res),
               map (\<lambda>t. length (contentOperations t)) (transferTxs res)))
       result"

section \<open>The generators with the ledger library's exceptions\<close>













section \<open>Example inputs\<close>

definition alice :: PublicKey where
  "alice = PublicKey ''alice''"

definition token :: PublicKey where
  "token = PublicKey ''token''"

definition sol_by_amount :: IBulkSolTransferConfig where
  "sol_by_amount =
     \<lparr>sender = alice, transfers = None, recipients = Some [''A'', ''B'', ''C''],
      fixedAmount = Some 5, instructionsPerTx = Some 2, memo = None\<rparr>"

definition sol_by_transfers :: IBulkSolTransferConfig where
  "sol_by_transfers =
     \<lparr>sender = alice,
      transfers = Some [\<lparr>recipient = ''A'', amount = 10, associatedTokenAccount = None\<rparr>,
                        \<lparr>recipient = ''B'', amount = 20, associatedTokenAccount = None\<rparr>],
      recipients = None, fixedAmount = None, instructionsPerTx = None, memo = None\<rparr>"

definition spl_by_amount :: IBulkSplTransferConfig where
  "spl_by_amount =
     \<lparr>sender = alice, transfers = None, recipients = Some [''A'', ''B'', ''C''],
      fixedAmount = Some 5, instructionsPerTx = Some 2, memo = None,
      mint = token, decimals = None\<rparr>"

definition spl_by_transfers :: IBulkSplTransferConfig where
  "spl_by_transfers =
     \<lparr>sender = alice,
      transfers = Some [\<lparr>recipient = ''A'', amount = 10, associatedTokenAccount = None\<rparr>,
                        \<lparr>recipient = ''B'', amount = 20, associatedTokenAccount = None\<rparr>],
      recipients = None, fixedAmount = None, instructionsPerTx = None, memo = None,
      mint = token, decimals = None\<rparr>"



text \<open>A ledger on which no token account exists, and one whose lookup of B's account fails.\<close>

definition empty_ledger :: Connection where
  "empty_ledger = \<lparr>getAccountInfo = (\<lambda>address. Inr None)\<rparr>"

definition failing_ledger :: Connection where
  "failing_ledger =
     \<lparr>getAccountInfo = (\<lambda>address.
        if address = getAssociatedTokenAddressSync token (PublicKey ''B'')
        then Inl (Error ''timeout'') else Inr None)\<rparr>"

text \<open>A ledger on which only A has a token account.\<close>

definition ledger_with_A :: Connection where
  "ledger_with_A =
     \<lparr>getAccountInfo = (\<lambda>address.
        if address = getAssociatedTokenAddressSync token (PublicKey ''A'')
        then Inr (Some (AccountInfo 2039280)) else Inr None)\<rparr>"

text \<open>Twenty-five distinct recipients.\<close>

definition recipients25 :: "string list" where
  "recipients25 = map (\<lambda>i. replicate i CHR ''x'') [1..<26]"

text \<open>
  A configuration with \<open>recipients\<close> but no \<open>fixedAmount\<close>, and \<open>transfers\<close> to someone
  else.
\<close>

definition spl_mismatch :: IBulkSplTransferConfig where
  "spl_mismatch =
     \<lparr>sender = alice,
      transfers = Some [\<lparr>recipient = ''B'', amount = 10, associatedTokenAccount = None\<rparr>],
      recipients = Some [''A''], fixedAmount = None,
      instructionsPerTx = None, memo = None, mint = token, decimals = None\<rparr>"

definition spl_25 :: IBulkSplTransferConfig where
  "spl_25 =
     \<lparr>sender = alice, transfers = None, recipients = Some recipients25,
      fixedAmount = Some 1, instructionsPerTx = None, memo = None,
      mint = token, decimals = None\<rparr>"


section \<open>Properties of the partition\<close>

declare chunks_of.simps [simp del]

lemma chunks_of_Nil: "chunks_of c [] = []"
  by (simp add: chunks_of.simps)

lemma chunks_of_single: "xs \<noteq> [] \<Longrightarrow> length xs \<le> c \<Longrightarrow> chunks_of c xs = [xs]"
  by (subst chunks_of.simps) (cases xs; auto simp: chunks_of_Nil)

lemma chunks_of_append:
  "0 < c \<Longrightarrow> length xs = c * m \<Longrightarrow> chunks_of c (xs @ ys) = chunks_of c xs @ chunks_of c ys"
proof (induction m arbitrary: xs)
  case 0
  then show ?case by (simp add: chunks_of_Nil)
next
  case (Suc m)
  from Suc.prems have len: "c \<le> length xs" and ne: "xs \<noteq> []" by auto
  have d: "length (drop c xs) = c * m" using Suc.prems by simp
  have "chunks_of c (xs @ ys) = take c xs # chunks_of c (drop c xs @ ys)"
    using Suc.prems len ne by (subst chunks_of.simps) simp
  also have "\<dots> = take c xs # (chunks_of c (drop c xs) @ chunks_of c ys)"
    using Suc.IH [OF Suc.prems(1) d] by simp
  also have "\<dots> = chunks_of c xs @ chunks_of c ys"
    using Suc.prems ne by (subst (2) chunks_of.simps) simp
  finally show ?case .
qed

lemma concat_chunks_of: "0 < c \<Longrightarrow> concat (chunks_of c xs) = xs"
proof (induction c xs rule: chunks_of.induct)
  case (1 c xs)
  then show ?case by (subst chunks_of.simps) auto
qed

lemma chunks_of_bounds:
  "0 < c \<Longrightarrow> g \<in> set (chunks_of c xs) \<Longrightarrow> g \<noteq> [] \<and> length g \<le> c \<and> set g \<subseteq> set xs"
proof (induction c xs arbitrary: g rule: chunks_of.induct)
  case (1 c xs)
  show ?case
  proof (cases "xs = []")
    case True
    then show ?thesis using "1.prems" by (simp add: chunks_of_Nil)
  next
    case False
    then have "g = take c xs \<or> g \<in> set (chunks_of c (drop c xs))"
      using "1.prems" by (subst (asm) chunks_of.simps) auto
    then show ?thesis
    proof
      assume "g = take c xs"
      then show ?thesis using False "1.prems"(1) by (auto dest: in_set_takeD)
    next
      assume "g \<in> set (chunks_of c (drop c xs))"
      then have "g \<noteq> [] \<and> length g \<le> c \<and> set g \<subseteq> set (drop c xs)"
        using "1.IH" False "1.prems"(1) by simp
      then show ?thesis by (auto dest: in_set_dropD)
    qed
  qed
qed

lemma sizes_chunks_of:
  "0 < c \<Longrightarrow> map length (chunks_of c xs) = partition_sizes c (length xs)"
proof (induction c xs rule: chunks_of.induct)
  case (1 c xs)
  show ?case
  proof (cases "xs = []")
    case True
    then show ?thesis by (simp add: chunks_of_Nil partition_sizes_def)
  next
    case False
    show ?thesis
    proof (cases "length xs < c")
      case True
      then show ?thesis using False by (simp add: chunks_of_single partition_sizes_def)
    next
      case ge: False
      then have le: "c \<le> length xs" by simp
      have "map length (chunks_of c xs) = c # map length (chunks_of c (drop c xs))"
        using False "1.prems" le by (subst chunks_of.simps) (simp add: min_def)
      also have "\<dots> = c # partition_sizes c (length xs - c)"
        using "1.IH" False "1.prems" by simp
      also have "\<dots> = partition_sizes c (length xs)"
        using le "1.prems" by (simp add: partition_sizes_def le_div_geq le_mod_geq)
      finally show ?thesis .
    qed
  qed
qed

lemma ceil_div: "0 < (c::nat) \<Longrightarrow> n div c + (if n mod c = 0 then 0 else 1) = (n + c - 1) div c"
proof -
  assume c: "0 < c"
  define q where "q = n div c"
  define r where "r = n mod c"
  have n: "n = c * q + r" and r: "r < c"
    using c by (simp_all add: q_def r_def)
  show ?thesis
  proof (cases "r = 0")
    case True
    have "(n + c - 1) div c = q"
      using n c True by (intro div_nat_eqI) simp_all
    then show ?thesis using True by (simp add: q_def r_def)
  next
    case False
    have "(n + c - 1) div c = Suc q"
      using n c r False by (intro div_nat_eqI) simp_all
    then show ?thesis using False by (simp add: q_def r_def)
  qed
qed

lemma length_partition_sizes: "0 < c \<Longrightarrow> length (partition_sizes c n) = (n + c - 1) div c"
  using ceil_div [of c n] by (simp add: partition_sizes_def split: if_splits)

lemma length_chunks_of: "0 < c \<Longrightarrow> length (chunks_of c xs) = (length xs + c - 1) div c"
  using sizes_chunks_of [of c xs] length_partition_sizes [of c "length xs"]
  by (metis length_map)

lemma take_chunks_of:
  "0 < c \<Longrightarrow> concat (take j (chunks_of c xs)) = take (j * c) xs"
proof (induction j arbitrary: xs)
  case 0
  then show ?case by simp
next
  case (Suc j)
  show ?case
  proof (cases "xs = []")
    case True
    then show ?thesis by (simp add: chunks_of_Nil)
  next
    case False
    have "concat (take (Suc j) (chunks_of c xs)) = take c xs @ concat (take j (chunks_of c (drop c xs)))"
      using False Suc.prems by (subst chunks_of.simps) simp
    also have "\<dots> = take c xs @ take (j * c) (drop c xs)"
      using Suc.IH [OF Suc.prems] by simp
    also have "\<dots> = take (Suc j * c) xs"
      by (simp add: take_add add.commute)
    finally show ?thesis .
  qed
qed

subsection \<open>State of the partition after one more item\<close>

lemma length_group_open: "length (group_open c xs) = length xs mod c"
  by (simp add: group_open_def)

lemma chunks_of_split:
  "0 < c \<Longrightarrow> chunks_of c xs = groups_done c xs @ (if group_open c xs = [] then [] else [group_open c xs])"
proof -
  assume c: "0 < c"
  let ?m = "length xs - length xs mod c"
  have lm: "length (take ?m xs) = c * (length xs div c)"
  proof -
    have "length (take ?m xs) = ?m" by simp
    also have "?m = c * (length xs div c)" by (simp only: minus_mod_eq_mult_div)
    finally show ?thesis .
  qed
  have "chunks_of c (take ?m xs @ drop ?m xs) = chunks_of c (take ?m xs) @ chunks_of c (drop ?m xs)"
    by (rule chunks_of_append [OF c lm])
  moreover have "chunks_of c (drop ?m xs) = (if drop ?m xs = [] then [] else [drop ?m xs])"
  proof (cases "drop ?m xs = []")
    case True
    then show ?thesis by (simp add: chunks_of_Nil)
  next
    case False
    have "length (drop ?m xs) \<le> c" using c by (simp add: less_imp_le)
    then show ?thesis using False by (simp add: chunks_of_single)
  qed
  ultimately show ?thesis by (simp add: groups_done_def group_open_def)
qed

lemma group_open_snoc:
  "0 < c \<Longrightarrow> group_open c (xs @ [x]) =
     (if Suc (length xs) mod c = 0 then [] else group_open c xs @ [x])"
proof -
  assume c: "0 < c"
  show ?thesis
  proof (cases "Suc (length xs) mod c = 0")
    case True
    then show ?thesis by (simp add: group_open_def)
  next
    case False
    then have "Suc (length xs) mod c = Suc (length xs mod c)" by (simp add: mod_Suc split: if_splits)
    then show ?thesis using False by (simp add: group_open_def)
  qed
qed

lemma groups_done_snoc:
  "0 < c \<Longrightarrow> groups_done c (xs @ [x]) =
     (if Suc (length xs) mod c = 0 then groups_done c xs @ [group_open c xs @ [x]] else groups_done c xs)"
proof -
  assume c: "0 < c"
  show ?thesis
  proof (cases "Suc (length xs) mod c = 0")
    case True
    then have full: "groups_done c (xs @ [x]) = chunks_of c (xs @ [x])"
      by (simp add: groups_done_def)
    have kc: "Suc (length xs mod c) = c" using True c by (metis mod_Suc nat.distinct(1))
    let ?m = "length xs - length xs mod c"
    have lm: "length (take ?m xs) = c * (length xs div c)"
    proof -
      have "length (take ?m xs) = ?m" by simp
      also have "?m = c * (length xs div c)" by (simp only: minus_mod_eq_mult_div)
      finally show ?thesis .
    qed
    have "chunks_of c (take ?m xs @ (drop ?m xs @ [x])) =
        chunks_of c (take ?m xs) @ chunks_of c (drop ?m xs @ [x])"
      by (rule chunks_of_append [OF c lm])
    moreover have "chunks_of c (drop ?m xs @ [x]) = [drop ?m xs @ [x]]"
      using kc by (intro chunks_of_single) auto
    moreover have "take ?m xs @ (drop ?m xs @ [x]) = xs @ [x]"
      by simp
    ultimately have "chunks_of c (xs @ [x]) = chunks_of c (take ?m xs) @ [drop ?m xs @ [x]]"
      by (simp only:)
    then show ?thesis using True full by (simp add: groups_done_def group_open_def)
  next
    case False
    then have "Suc (length xs) mod c = Suc (length xs mod c)" by (simp add: mod_Suc split: if_splits)
    then show ?thesis using False by (simp add: groups_done_def)
  qed
qed

subsection \<open>The transfer loop computes the partition\<close>

lemma js_rem_Suc: "b \<noteq> 0 \<Longrightarrow> (js_rem (int i + 1) b = Some 0) = (Suc i mod nat \<bar>b\<bar> = 0)"
proof -
  assume b: "b \<noteq> 0"
  have "int (Suc i) mod \<bar>b\<bar> = int (Suc i mod nat \<bar>b\<bar>)"
    by (simp add: zmod_int)
  then show ?thesis using b by (simp add: js_rem_def add.commute)
qed

lemma cut_test:
  assumes k: "k < n"
  shows "(js_rem (int k + 1) perTx = Some 0 \<or> int k = int n - 1) =
         (Suc k mod (if perTx = 0 then Suc n else nat \<bar>perTx\<bar>) = 0 \<or> Suc k = n)"
proof (cases "perTx = 0")
  case True
  have "Suc k mod Suc n \<noteq> 0" using k by simp
  then show ?thesis using True by (auto simp: js_rem_def)
next
  case False
  then show ?thesis by (auto simp: js_rem_Suc)
qed

lemma finalize_nonempty:
  "currentInstructions b \<noteq> [] \<Longrightarrow>
   finalizeTransaction mem sndr b =
     \<lparr>transactions = transactions b @ [with_memo mem sndr (currentInstructions b)],
      currentInstructions = []\<rparr>"
  by (simp add: finalizeTransaction_def push_def with_memo_def Let_def)

lemma transfer_iteration_step:
  assumes c: "0 < c" and k: "k < length xs"
    and cut: "(js_rem (int k + 1) perTx = Some 0 \<or> int k = int (length xs) - 1) =
              (Suc k mod c = 0 \<or> Suc k = length xs)"
    and nl: "Suc k \<noteq> length xs"
  shows "transfer_iteration mk mem sndr perTx xs k
           \<lparr>transactions = map (with_memo mem sndr) (groups_done c (take k (map mk xs))),
            currentInstructions = group_open c (take k (map mk xs))\<rparr> =
         \<lparr>transactions = map (with_memo mem sndr) (groups_done c (take (Suc k) (map mk xs))),
          currentInstructions = group_open c (take (Suc k) (map mk xs))\<rparr>"
proof -
  have tk: "take (Suc k) (map mk xs) = take k (map mk xs) @ [mk (xs ! k)]"
    using k by (simp add: take_Suc_conv_app_nth)
  have lk: "length (take k (map mk xs)) = k" using k by simp
  show ?thesis
    using cut nl k
    by (simp add: transfer_iteration_def push_def Let_def finalize_nonempty tk
        group_open_snoc [OF c] groups_done_snoc [OF c] min_absorb2)
qed

lemma transfer_prefix:
  fixes xs :: "'a list"
  assumes c: "0 < c"
    and cut: "\<And>k. k < length xs \<Longrightarrow>
       (js_rem (int k + 1) perTx = Some 0 \<or> int k = int (length xs) - 1) =
       (Suc k mod c = 0 \<or> Suc k = length xs)"
  shows "k < length xs \<Longrightarrow>
     fold (transfer_iteration mk mem sndr perTx xs) [0..<k] start =
       \<lparr>transactions = map (with_memo mem sndr) (groups_done c (take k (map mk xs))),
        currentInstructions = group_open c (take k (map mk xs))\<rparr>"
proof (induction k)
  case 0
  then show ?case by (simp add: start_def groups_done_def group_open_def chunks_of_Nil)
next
  case (Suc k)
  from Suc.prems have k: "k < length xs" and nl: "Suc k \<noteq> length xs" by simp_all
  have "fold (transfer_iteration mk mem sndr perTx xs) [0..<Suc k] start =
      transfer_iteration mk mem sndr perTx xs k
        \<lparr>transactions = map (with_memo mem sndr) (groups_done c (take k (map mk xs))),
         currentInstructions = group_open c (take k (map mk xs))\<rparr>"
    using Suc.IH [OF k] by simp
  then show ?case
    by (simp only: transfer_iteration_step [OF c k cut [OF k] nl])
qed

lemma transfer_loop_chunks:
  fixes xs :: "'a list"
  assumes c: "0 < c"
    and cut: "\<And>k. k < length xs \<Longrightarrow>
       (js_rem (int k + 1) perTx = Some 0 \<or> int k = int (length xs) - 1) =
       (Suc k mod c = 0 \<or> Suc k = length xs)"
  shows "transfer_loop mk mem sndr perTx xs =
       \<lparr>transactions = map (with_memo mem sndr) (chunks_of c (map mk xs)),
        currentInstructions = []\<rparr>"
proof (cases "length xs")
  case 0
  then show ?thesis by (simp add: transfer_loop_def start_def chunks_of_Nil)
next
  case (Suc k)
  let ?ops = "map mk xs"
  let ?pre = "take k ?ops"
  have k: "k < length xs" using Suc by simp
  have tk: "?ops = ?pre @ [mk (xs ! k)]"
    using Suc by (metis k length_map lessI nth_map order_refl take_Suc_conv_app_nth take_all)
  have lk: "length ?pre = k" using k by simp
  have ch: "chunks_of c ?ops = groups_done c ?pre @ [group_open c ?pre @ [mk (xs ! k)]]"
  proof -
    have "chunks_of c (?pre @ [mk (xs ! k)]) =
        groups_done c (?pre @ [mk (xs ! k)]) @
        (if group_open c (?pre @ [mk (xs ! k)]) = [] then [] else [group_open c (?pre @ [mk (xs ! k)])])"
      by (rule chunks_of_split [OF c])
    also have "\<dots> = groups_done c ?pre @ [group_open c ?pre @ [mk (xs ! k)]]"
      by (simp add: group_open_snoc [OF c] groups_done_snoc [OF c])
    finally show ?thesis using tk by simp
  qed
  have "transfer_loop mk mem sndr perTx xs =
      transfer_iteration mk mem sndr perTx xs k
        (fold (transfer_iteration mk mem sndr perTx xs) [0..<k] start)"
    by (simp add: transfer_loop_def Suc)
  also have "\<dots> = transfer_iteration mk mem sndr perTx xs k
        \<lparr>transactions = map (with_memo mem sndr) (groups_done c ?pre),
         currentInstructions = group_open c ?pre\<rparr>"
    by (simp only: transfer_prefix [OF c cut k])
  also have "\<dots> = \<lparr>transactions = map (with_memo mem sndr) (chunks_of c ?ops),
        currentInstructions = []\<rparr>"
    using cut [OF k] Suc
    by (simp add: transfer_iteration_def push_def finalize_nonempty ch Let_def)
  finally show ?thesis .
qed

lemma transfer_capacity_pos: "0 < transfer_capacity perTx n"
  by (simp add: transfer_capacity_def)

lemma transfer_loop_closed:
  "transactions (transfer_loop mk mem sndr perTx xs) =
     map (with_memo mem sndr) (chunks_of (transfer_capacity perTx (length xs)) (map mk xs))"
proof -
  let ?c = "transfer_capacity perTx (length xs)"
  have "transfer_loop mk mem sndr perTx xs =
       \<lparr>transactions = map (with_memo mem sndr) (chunks_of ?c (map mk xs)),
        currentInstructions = []\<rparr>"
    unfolding transfer_capacity_def
    by (rule transfer_loop_chunks) (simp, rule cut_test)
  then show ?thesis by simp
qed

subsection \<open>The account-creation loop computes the partition\<close>

lemma for_each_snoc:
  "for_each body (is @ [i]) s =
     (case for_each body is s of Inl e \<Rightarrow> Inl e | Inr s' \<Rightarrow> body i s')"
  by (induction "is" arbitrary: s) (auto split: sum.splits)

lemma provisioning_take_Suc:
  "k < length rcpts \<Longrightarrow>
   provisioningOperations connection mnt payer (take (Suc k) rcpts) =
     provisioningOperations connection mnt payer (take k rcpts) @
     (if accountMissing connection mnt (rcpts ! k)
      then [fst (createTokenAccountInstruction payer mnt (PublicKey (rcpts ! k)))] else [])"
  by (simp add: provisioningOperations_def take_Suc_conv_app_nth)

lemma full_test:
  fixes perTx :: int
  assumes c_def: "c = nat (max 1 perTx)"
  shows "(perTx \<le> int (Suc (m mod c))) = (Suc m mod c = 0)"
proof (cases "perTx \<le> 1")
  case True
  then have "c = 1" by (simp add: c_def max_def)
  then show ?thesis using True by simp
next
  case False
  then have c: "int c = perTx" "0 < c" by (simp_all add: c_def max_def)
  have "m mod c < c" using c by simp
  then have "(perTx \<le> int (Suc (m mod c))) = (Suc (m mod c) = c)"
    using c by linarith
  also have "\<dots> = (Suc m mod c = 0)"
    using c by (simp add: mod_Suc)
  finally show ?thesis .
qed

lemma open_test:
  fixes perTx :: int
  assumes c_def: "c = nat (max 1 perTx)"
  shows "perTx \<le> int (m mod c) \<Longrightarrow> m mod c = 0"
proof (cases "perTx \<le> 1")
  case True
  then have "c = 1" by (simp add: c_def max_def)
  then show ?thesis by simp
next
  case False
  assume a: "perTx \<le> int (m mod c)"
  from False have c: "int c = perTx" "0 < c" by (simp_all add: c_def max_def)
  have "m mod c < c" using c by simp
  then show ?thesis using a c by linarith
qed

lemma creation_iteration_step:
  fixes perTx :: int
  assumes c_def: "c = nat (max 1 perTx)"
    and k: "k < length rcpts"
    and ok: "\<not> lookupRejects connection mnt (rcpts ! k)"
  shows "creation_iteration connection mnt payer rcpts perTx k
           \<lparr>transactions = map buildTransaction
              (groups_done c (provisioningOperations connection mnt payer (take k rcpts))),
            currentInstructions =
              group_open c (provisioningOperations connection mnt payer (take k rcpts))\<rparr> =
         Inr (if Suc k = length rcpts
              then \<lparr>transactions = map buildTransaction
                      (chunks_of c (provisioningOperations connection mnt payer rcpts)),
                    currentInstructions = []\<rparr>
              else \<lparr>transactions = map buildTransaction
                      (groups_done c (provisioningOperations connection mnt payer (take (Suc k) rcpts))),
                    currentInstructions =
                      group_open c (provisioningOperations connection mnt payer (take (Suc k) rcpts))\<rparr>)"
proof -
  have c: "0 < c" by (simp add: c_def)
  let ?ops = "provisioningOperations connection mnt payer (take k rcpts)"
  let ?x = "fst (createTokenAccountInstruction payer mnt (PublicKey (rcpts ! k)))"
  obtain info where info: "getAccountInfo connection
      (getAssociatedTokenAddressSync mnt (PublicKey (rcpts ! k))) = Inr info"
    using ok by (cases "getAccountInfo connection
      (getAssociatedTokenAddressSync mnt (PublicKey (rcpts ! k)))") (auto simp: lookupRejects_def)
  have all: "Suc k = length rcpts \<Longrightarrow> take (Suc k) rcpts = rcpts" by simp
  show ?thesis
  proof (cases "accountMissing connection mnt (rcpts ! k)")
    case True
    then have n: "info = None" using info by (simp add: accountMissing_def)
    have nxt: "provisioningOperations connection mnt payer (take (Suc k) rcpts) = ?ops @ [?x]"
      using True k by (simp add: provisioning_take_Suc)
    have ft: "(perTx \<le> int (Suc (length ?ops mod c))) = (Suc (length ?ops) mod c = 0)"
      by (rule full_test [OF c_def])
    have whole: "Suc k = length rcpts \<Longrightarrow>
        chunks_of c (provisioningOperations connection mnt payer rcpts) =
        groups_done c ?ops @ [group_open c ?ops @ [?x]]"
    proof -
      assume l: "Suc k = length rcpts"
      have "chunks_of c (?ops @ [?x]) = groups_done c (?ops @ [?x]) @
          (if group_open c (?ops @ [?x]) = [] then [] else [group_open c (?ops @ [?x])])"
        by (rule chunks_of_split [OF c])
      also have "\<dots> = groups_done c ?ops @ [group_open c ?ops @ [?x]]"
        by (simp add: group_open_snoc [OF c] groups_done_snoc [OF c])
      finally show ?thesis using nxt all [OF l] by simp
    qed
    show ?thesis
      using ft
      by (simp add: creation_iteration_def Let_def info n push_def nxt whole
          length_group_open group_open_snoc [OF c] groups_done_snoc [OF c])
  next
    case False
    then have n: "info \<noteq> None" using info by (simp add: accountMissing_def)
    have nxt: "provisioningOperations connection mnt payer (take (Suc k) rcpts) = ?ops"
      using False k by (simp add: provisioning_take_Suc)
    have ot: "perTx \<le> int (length ?ops mod c) \<Longrightarrow> group_open c ?ops = []"
      using open_test [OF c_def, of "length ?ops"] length_group_open [of c ?ops]
      by simp
    have whole: "Suc k = length rcpts \<Longrightarrow>
        chunks_of c (provisioningOperations connection mnt payer rcpts) =
        groups_done c ?ops @ (if group_open c ?ops = [] then [] else [group_open c ?ops])"
      using chunks_of_split [OF c, of ?ops] nxt all by simp
    have "creation_iteration connection mnt payer rcpts perTx k
           \<lparr>transactions = map buildTransaction (groups_done c ?ops),
            currentInstructions = group_open c ?ops\<rparr> =
          Inr (if Suc k = length rcpts \<and> group_open c ?ops \<noteq> []
               then \<lparr>transactions = map buildTransaction (groups_done c ?ops @ [group_open c ?ops]),
                     currentInstructions = []\<rparr>
               else \<lparr>transactions = map buildTransaction (groups_done c ?ops),
                     currentInstructions = group_open c ?ops\<rparr>)"
      using ot n by (auto simp: creation_iteration_def Let_def info length_group_open)
    then show ?thesis
      by (simp add: nxt whole)
  qed
qed

lemma creation_prefix:
  fixes perTx :: int
  assumes c_def: "c = nat (max 1 perTx)"
    and ok: "\<forall>r \<in> set rcpts. \<not> lookupRejects connection mnt r"
  shows "k < length rcpts \<Longrightarrow>
     for_each (creation_iteration connection mnt payer rcpts perTx) [0..<k] start =
       Inr \<lparr>transactions = map buildTransaction
              (groups_done c (provisioningOperations connection mnt payer (take k rcpts))),
            currentInstructions =
              group_open c (provisioningOperations connection mnt payer (take k rcpts))\<rparr>"
proof (induction k)
  case 0
  then show ?case
    by (simp add: start_def provisioningOperations_def groups_done_def group_open_def chunks_of_Nil)
next
  case (Suc k)
  from Suc.prems have k: "k < length rcpts" and nl: "Suc k \<noteq> length rcpts" by simp_all
  have okk: "\<not> lookupRejects connection mnt (rcpts ! k)" using ok k by simp
  show ?case
    using Suc.IH [OF k] nl
    by (simp add: for_each_snoc creation_iteration_step [OF c_def k okk])
qed

lemma creation_closed:
  assumes ok: "\<forall>r \<in> set rcpts. \<not> lookupRejects connection mnt r"
  shows "generateTokenAccountCreationTransactions connection mnt payer rcpts perTx_arg =
     Inr (map buildTransaction
       (chunks_of (nat (max 1 (default_to DEFAULT_INSTRUCTIONS_PER_TX_ACCOUNT_CREATION perTx_arg)))
          (provisioningOperations connection mnt payer rcpts)))"
proof (cases "length rcpts")
  case 0
  then show ?thesis
    by (simp add: generateTokenAccountCreationTransactions_def start_def
        provisioningOperations_def chunks_of_Nil)
next
  case (Suc k)
  let ?perTx = "default_to DEFAULT_INSTRUCTIONS_PER_TX_ACCOUNT_CREATION perTx_arg"
  have k: "k < length rcpts" using Suc by simp
  have okk: "\<not> lookupRejects connection mnt (rcpts ! k)" using ok k by simp
  have "for_each (creation_iteration connection mnt payer rcpts ?perTx) [0..<length rcpts] start =
      Inr \<lparr>transactions = map buildTransaction
              (chunks_of (nat (max 1 ?perTx)) (provisioningOperations connection mnt payer rcpts)),
            currentInstructions = []\<rparr>"
    using creation_prefix [OF refl ok k, where perTx = ?perTx and payer = payer] Suc
    by (simp add: for_each_snoc creation_iteration_step [OF refl k okk])
  then show ?thesis
    by (simp add: generateTokenAccountCreationTransactions_def Let_def)
qed

lemma for_each_rejects:
  assumes "i \<in> set is" and "\<And>s. \<exists>e. body i s = Inl e"
  shows "\<exists>e. for_each body is s = Inl e"
  using assms(1)
proof (induction "is" arbitrary: s)
  case Nil
  then show ?case by simp
next
  case (Cons j js)
  show ?case
  proof (cases "body j s")
    case (Inl e)
    then show ?thesis by simp
  next
    case (Inr s')
    then have "j \<noteq> i" using assms(2) [of s] by auto
    then have "i \<in> set js" using Cons.prems by simp
    then show ?thesis using Cons.IH Inr by simp
  qed
qed

lemma creation_rejects:
  assumes "r \<in> set rcpts" and "lookupRejects connection mnt r"
  shows "\<exists>e. generateTokenAccountCreationTransactions connection mnt payer rcpts perTx_arg = Inl e"
proof -
  obtain i where i: "i < length rcpts" "rcpts ! i = r"
    using assms(1) by (auto simp: in_set_conv_nth)
  let ?perTx = "default_to DEFAULT_INSTRUCTIONS_PER_TX_ACCOUNT_CREATION perTx_arg"
  have body: "\<And>s. \<exists>e. creation_iteration connection mnt payer rcpts ?perTx i s = Inl e"
    using assms(2) i
    by (auto simp: creation_iteration_def lookupRejects_def Let_def isl_def)
  have mem: "i \<in> set [0..<length rcpts]" using i by simp
  obtain e where
    "for_each (creation_iteration connection mnt payer rcpts ?perTx) [0..<length rcpts] start = Inl e"
    using for_each_rejects [of i "[0..<length rcpts]"
        "creation_iteration connection mnt payer rcpts ?perTx" start, OF mem body]
    by (elim exE)
  then show ?thesis
    by (simp add: generateTokenAccountCreationTransactions_def Let_def)
qed

subsection \<open>What a packed transaction list looks like\<close>

lemma isMemo_createMemoInstruction: "isMemo (createMemoInstruction mem sndr)"
  by (simp add: createMemoInstruction_def)

lemma not_isMemo_sol: "\<not> isMemo (createSolTransferInstruction a b n)"
  by (simp add: createSolTransferInstruction_def)

lemma not_isMemo_spl: "\<not> isMemo (createSplTransferInstructionByOwners m a b n)"
  by (simp add: createSplTransferInstructionByOwners_def Let_def)

lemma not_isMemo_provisioning:
  "x \<in> set (provisioningOperations connection mnt payer rcpts) \<Longrightarrow> \<not> isMemo x"
  by (auto simp: provisioningOperations_def createTokenAccountInstruction_def Let_def)

lemma content_with_memo:
  "\<forall>x \<in> set g. \<not> isMemo x \<Longrightarrow> contentOperations (with_memo mem sndr g) = g"
  by (simp add: contentOperations_def with_memo_def buildTransaction_def
      isMemo_createMemoInstruction filter_id_conv)

lemma memo_with_memo:
  "\<forall>x \<in> set g. \<not> isMemo x \<Longrightarrow>
   memoOperations (with_memo mem sndr g) = [createMemoInstruction mem sndr]"
  by (simp add: memoOperations_def with_memo_def buildTransaction_def
      isMemo_createMemoInstruction filter_empty_conv)

lemma content_packed:
  assumes c: "0 < c" and ops: "\<forall>x \<in> set ops. \<not> isMemo x"
  shows "map contentOperations (map (with_memo mem sndr) (chunks_of c ops)) = chunks_of c ops"
proof -
  have "\<And>g. g \<in> set (chunks_of c ops) \<Longrightarrow> contentOperations (with_memo mem sndr g) = g"
    using chunks_of_bounds [OF c] ops by (intro content_with_memo) blast
  then show ?thesis by (simp add: map_idI)
qed

lemma cut_after_chunks:
  assumes c: "0 < c" and i: "i < length ops"
    and txs: "map contentOperations txs = chunks_of c ops"
  shows "cut_after txs i = (Suc i mod c = 0 \<or> i = length ops - 1)"
proof -
  have len: "length txs = length (chunks_of c ops)"
    using txs by (metis length_map)
  have pre: "\<And>j. length (concat (map contentOperations (take j txs))) = min (length ops) (j * c)"
  proof -
    fix j
    have "map contentOperations (take j txs) = take j (chunks_of c ops)"
      using txs by (simp add: take_map [symmetric])
    then show "length (concat (map contentOperations (take j txs))) = min (length ops) (j * c)"
      by (simp add: take_chunks_of [OF c])
  qed
  show ?thesis
  proof
    assume "cut_after txs i"
    then obtain j where "min (length ops) (j * c) = Suc i"
      by (auto simp: cut_after_def pre)
    then have "length ops = Suc i \<or> j * c = Suc i"
      by (auto simp: min_def split: if_splits)
    then show "Suc i mod c = 0 \<or> i = length ops - 1"
      by (metis diff_Suc_1 mod_mult_self2_is_0)
  next
    assume r: "Suc i mod c = 0 \<or> i = length ops - 1"
    show "cut_after txs i"
    proof (cases "i = length ops - 1")
      case True
      then have "Suc i = length ops" using i by simp
      moreover have "length (concat (map contentOperations (take (length txs) txs))) = length ops"
        using txs by (simp add: concat_chunks_of [OF c])
      ultimately show ?thesis
        unfolding cut_after_def by (intro bexI [of _ "length txs"]) simp_all
    next
      case False
      then have m: "Suc i mod c = 0" using r by simp
      let ?j = "Suc i div c"
      have jc: "?j * c = Suc i" using m by (simp add: mod_eq_0_iff_dvd)
      have "?j \<le> length ops div c"
        using i by (intro div_le_mono) simp
      also have "\<dots> \<le> (length ops + c - 1) div c"
        using c by (intro div_le_mono) simp
      finally have "?j \<le> length txs"
        by (simp add: len length_chunks_of [OF c])
      moreover have "length (concat (map contentOperations (take ?j txs))) = Suc i"
        using i by (simp add: pre jc)
      ultimately show ?thesis
        unfolding cut_after_def by (intro bexI [of _ ?j]) simp_all
    qed
  qed
qed

lemma packing_of_chunks:
  assumes c: "0 < c" and ops: "\<forall>x \<in> set ops. \<not> isMemo x"
  shows "fixed_capacity_packing c (length ops) (map (with_memo mem sndr) (chunks_of c ops))"
proof -
  let ?txs = "map (with_memo mem sndr) (chunks_of c ops)"
  have content: "map contentOperations ?txs = chunks_of c ops"
    by (rule content_packed [OF c ops])
  have "map (\<lambda>t. length (contentOperations t)) ?txs = map length (map contentOperations ?txs)"
    by (simp add: comp_def)
  then have sizes: "map (\<lambda>t. length (contentOperations t)) ?txs = partition_sizes c (length ops)"
    by (simp only: content sizes_chunks_of [OF c])
  have cuts: "\<forall>i \<in> {..<length ops}. cut_after ?txs i = (Suc i mod c = 0 \<or> i = length ops - 1)"
    using cut_after_chunks [OF c _ content] by simp
  show ?thesis
    unfolding fixed_capacity_packing_def
    using sizes cuts by (simp add: length_chunks_of [OF c])
qed

lemma memo_terminated_chunks:
  assumes c: "0 < c" and ops: "\<forall>x \<in> set ops. \<not> isMemo x"
    and t: "t \<in> set (map (with_memo mem sndr) (chunks_of c ops))"
  shows "memo_terminated mem sndr t \<and> length (instructions t) \<le> c + 1"
proof -
  obtain g where g: "g \<in> set (chunks_of c ops)" and tg: "t = with_memo mem sndr g"
    using t by auto
  have b: "g \<noteq> []" "length g \<le> c" "set g \<subseteq> set ops"
    using chunks_of_bounds [OF c g] by simp_all
  then have nm: "\<forall>x \<in> set g. \<not> isMemo x" using ops by blast
  have "instructions t = g @ [createMemoInstruction mem sndr]"
    by (simp add: tg with_memo_def buildTransaction_def)
  then show ?thesis
    using b content_with_memo [OF nm, of mem sndr] memo_with_memo [OF nm, of mem sndr]
    by (simp add: memo_terminated_def tg)
qed

subsection \<open>The transfer generators in closed form\<close>

lemma sol_closed:
  assumes "request_count config = Some N"
  shows "generateBulkSolTransactions config =
           Inr (map (with_memo (default_to DEFAULT_MEMO_SOL (memo config)) (sender config))
                 (chunks_of (transfer_capacity
                     (default_to DEFAULT_INSTRUCTIONS_PER_TX (instructionsPerTx config)) N)
                   (solOperations config)))"
    and "length (solOperations config) = N"
    and "\<forall>x \<in> set (solOperations config). \<not> isMemo x"
  using assms
  by (auto simp: request_count_def generateBulkSolTransactions_def solOperations_def Let_def
      transfer_loop_closed not_isMemo_sol split: if_splits)

lemma spl_closed:
  assumes "request_count config = Some N"
  shows "generateBulkSplTransactions config =
           Inr (map (with_memo (default_to DEFAULT_MEMO (memo config)) (sender config))
                 (chunks_of (transfer_capacity
                     (default_to DEFAULT_INSTRUCTIONS_PER_TX_TRANSFER (instructionsPerTx config)) N)
                   (splOperations config)))"
    and "length (splOperations config) = N"
    and "\<forall>x \<in> set (splOperations config). \<not> isMemo x"
  using assms
  by (auto simp: request_count_def generateBulkSplTransactions_def splOperations_def Let_def
      transfer_loop_closed not_isMemo_spl split: if_splits)

lemma transfer_capacity_positive: "1 \<le> C \<Longrightarrow> transfer_capacity C n = nat C"
  by (simp add: transfer_capacity_def)

lemma sol_content:
  assumes "request_count sol = Some N"
  shows "\<exists>txs. generateBulkSolTransactions sol = Inr txs \<and>
           concat (map contentOperations txs) = solOperations sol"
  using sol_closed(1) [OF assms]
    content_packed [OF transfer_capacity_pos sol_closed(3) [OF assms]]
  by (simp add: concat_chunks_of [OF transfer_capacity_pos])

lemma spl_content:
  assumes "request_count spl = Some N"
  shows "\<exists>txs. generateBulkSplTransactions spl = Inr txs \<and>
           concat (map contentOperations txs) = splOperations spl"
  using spl_closed(1) [OF assms]
    content_packed [OF transfer_capacity_pos spl_closed(3) [OF assms]]
  by (simp add: concat_chunks_of [OF transfer_capacity_pos])

lemma instructions_buildTransaction: "instructions (buildTransaction g) = g"
  by (simp add: buildTransaction_def)

lemma creation_sizes:
  assumes c: "0 < c"
  shows "map (\<lambda>t. length (instructions t)) (map buildTransaction (chunks_of c ops)) =
         partition_sizes c (length ops)"
proof -
  have "map (\<lambda>t. length (instructions t)) (map buildTransaction (chunks_of c ops)) =
      map length (chunks_of c ops)"
    by (simp add: comp_def instructions_buildTransaction)
  then show ?thesis by (simp only: sizes_chunks_of [OF c])
qed

lemma creation_no_memo:
  assumes c: "0 < c"
    and ops: "\<forall>x \<in> set ops. \<not> isMemo x"
    and t: "t \<in> set (map buildTransaction (chunks_of c ops))"
  shows "memoOperations t = []"
proof -
  obtain g where g: "g \<in> set (chunks_of c ops)" and tg: "t = buildTransaction g"
    using t by auto
  have "set g \<subseteq> set ops" using chunks_of_bounds [OF c g] by simp
  then have "\<forall>x \<in> set g. \<not> isMemo x" using ops by blast
  then show ?thesis
    by (simp add: tg memoOperations_def instructions_buildTransaction filter_empty_conv)
qed

subsection \<open>Rejected lookups\<close>

lemma creation_completes:
  assumes "generateTokenAccountCreationTransactions connection mnt payer rcpts perTx_arg = Inr txs"
  shows "\<forall>r \<in> set rcpts. \<not> lookupRejects connection mnt r"
proof
  fix r assume r: "r \<in> set rcpts"
  show "\<not> lookupRejects connection mnt r"
  proof
    assume "lookupRejects connection mnt r"
    from creation_rejects [OF r this, of payer perTx_arg] assms
    show False by simp
  qed
qed

lemma for_each_error_source:
  "for_each body is s = Inl e \<Longrightarrow> \<exists>i \<in> set is. \<exists>s'. body i s' = Inl e"
proof (induction "is" arbitrary: s)
  case Nil
  then show ?case by simp
next
  case (Cons j js)
  show ?case
  proof (cases "body j s")
    case (Inl e')
    then have "e' = e" using Cons.prems by simp
    then show ?thesis using Inl by auto
  next
    case (Inr s')
    then have "for_each body js s' = Inl e" using Cons.prems by simp
    then show ?thesis using Cons.IH by auto
  qed
qed

lemma creation_error_source:
  assumes "generateTokenAccountCreationTransactions connection mnt payer rcpts perTx_arg = Inl e"
  shows "\<exists>r \<in> set rcpts.
           getAccountInfo connection (getAssociatedTokenAddressSync mnt (PublicKey r)) = Inl e"
proof -
  let ?perTx = "default_to DEFAULT_INSTRUCTIONS_PER_TX_ACCOUNT_CREATION perTx_arg"
  have "for_each (creation_iteration connection mnt payer rcpts ?perTx) [0..<length rcpts] start = Inl e"
    using assms
    by (simp add: generateTokenAccountCreationTransactions_def Let_def split: sum.splits)
  then obtain i s' where i: "i < length rcpts"
    and b: "creation_iteration connection mnt payer rcpts ?perTx i s' = Inl e"
    using for_each_error_source [of "creation_iteration connection mnt payer rcpts ?perTx"
        "[0..<length rcpts]" start e]
    by auto
  have "getAccountInfo connection (getAssociatedTokenAddressSync mnt (PublicKey (rcpts ! i))) = Inl e"
    using b by (simp add: creation_iteration_def Let_def split: sum.splits if_splits)
  then show ?thesis using i by (intro bexI [of _ "rcpts ! i"]) simp_all
qed

subsection \<open>Capacities below one\<close>

lemma chunks_of_one: "chunks_of (Suc 0) xs = map (\<lambda>x. [x]) xs"
proof (induction xs)
  case Nil
  then show ?case by (simp add: chunks_of_Nil)
next
  case (Cons x xs)
  then show ?case by (subst chunks_of.simps) simp
qed

lemma chunks_of_whole: "length (chunks_of (Suc (length xs)) xs) = (if xs = [] then 0 else 1)"
  by (simp add: chunks_of_Nil chunks_of_single)

lemma transfer_capacity_minus: "transfer_capacity (- C) n = transfer_capacity C n"
  by (simp add: transfer_capacity_def)

subsection \<open>The orchestration in closed form\<close>

lemma complete_closed:
  fixes config :: "'a IBulkSplTransferConfig_scheme"
  assumes rl: "recipientList config = Inr rcpts"
    and ok: "\<forall>r \<in> set rcpts. \<not> lookupRejects connection (mint config) r"
    and n: "request_count config = Some N"
  shows "generateCompleteBulkSplTransactions connection config =
     Inr \<lparr>accountCreationTxs = map buildTransaction
            (chunks_of (nat (max 1 (default_to DEFAULT_INSTRUCTIONS_PER_TX_ACCOUNT_CREATION
                                      (instructionsPerTx config))))
               (provisioningOperations connection (mint config) (sender config) rcpts)),
          transferTxs = map (with_memo (default_to DEFAULT_MEMO (memo config)) (sender config))
            (chunks_of (transfer_capacity
                (default_to DEFAULT_INSTRUCTIONS_PER_TX_TRANSFER (instructionsPerTx config)) N)
              (splOperations config))\<rparr>"
  by (simp add: generateCompleteBulkSplTransactions_def rl creation_closed [OF ok]
      spl_closed(1) [OF n])

lemma complete_succeeds:
  fixes config :: "'a IBulkSplTransferConfig_scheme"
  assumes "generateCompleteBulkSplTransactions connection config = Inr res"
  shows "\<exists>rcpts N. recipientList config = Inr rcpts \<and>
           (\<forall>r \<in> set rcpts. \<not> lookupRejects connection (mint config) r) \<and>
           request_count config = Some N"
proof -
  obtain rcpts where rl: "recipientList config = Inr rcpts"
    using assms by (cases "recipientList config")
      (simp_all add: generateCompleteBulkSplTransactions_def)
  obtain creationTxs where cr: "generateTokenAccountCreationTransactions connection (mint config)
      (sender config) rcpts (instructionsPerTx config) = Inr creationTxs"
    using assms rl
    by (cases "generateTokenAccountCreationTransactions connection (mint config)
      (sender config) rcpts (instructionsPerTx config)")
      (simp_all add: generateCompleteBulkSplTransactions_def)
  have ok: "\<forall>r \<in> set rcpts. \<not> lookupRejects connection (mint config) r"
    by (rule creation_completes [OF cr])
  obtain txs where "generateBulkSplTransactions config = Inr txs"
    using assms rl cr
    by (cases "generateBulkSplTransactions config")
      (simp_all add: generateCompleteBulkSplTransactions_def)
  then have "request_count config \<noteq> None"
    by (auto simp: generateBulkSplTransactions_def request_count_def Let_def split: if_splits)
  then show ?thesis using rl ok by auto
qed

subsection \<open>Which recipients the two phases serve\<close>

lemma concat_creation:
  "0 < c \<Longrightarrow> concat (map instructions (map buildTransaction (chunks_of c ops))) = ops"
  by (simp add: comp_def instructions_buildTransaction concat_chunks_of)

lemma destination_spl:
  "destination (createSplTransferInstructionByOwners mnt sndr owner n) =
     Some (getAssociatedTokenAddressSync mnt owner)"
  by (simp add: createSplTransferInstructionByOwners_def Let_def)

text \<open>
  When the recipients come from the family the transfer generator uses (\<open>recipients\<close>
  only together with \<open>fixedAmount\<close>, otherwise \<open>transfers\<close>) and no lookup rejects,
  account-creation instructions are built exactly for the recipients without an
  account, in input order, and one transfer pays into the token account of every
  recipient.
\<close>

lemma orchestration_one_family:
  fixes config :: "'a IBulkSplTransferConfig_scheme"
  assumes fam: "recipients config \<noteq> None \<longrightarrow> fixedAmount config \<noteq> None"
    and rl: "recipientList config = Inr rcpts"
    and ok: "\<forall>r \<in> set rcpts. \<not> lookupRejects connection (mint config) r"
  shows "\<exists>res. generateCompleteBulkSplTransactions connection config = Inr res \<and>
           concat (map instructions (accountCreationTxs res)) =
             map (\<lambda>r. fst (createTokenAccountInstruction (sender config) (mint config) (PublicKey r)))
               (filter (accountMissing connection (mint config)) rcpts) \<and>
           map destination (concat (map contentOperations (transferTxs res))) =
             map (\<lambda>r. Some (getAssociatedTokenAddressSync (mint config) (PublicKey r))) rcpts"
proof -
  have n: "request_count config = Some (length rcpts)"
    using fam rl by (auto simp: recipientList_def request_count_def split: if_splits)
  have d: "map destination (splOperations config) =
      map (\<lambda>r. Some (getAssociatedTokenAddressSync (mint config) (PublicKey r))) rcpts"
    using fam rl
    by (auto simp: recipientList_def splOperations_def destination_spl comp_def split: if_splits)
  let ?cp = "nat (max 1 (default_to DEFAULT_INSTRUCTIONS_PER_TX_ACCOUNT_CREATION (instructionsPerTx config)))"
  let ?ct = "transfer_capacity (default_to DEFAULT_INSTRUCTIONS_PER_TX_TRANSFER
      (instructionsPerTx config)) (length rcpts)"
  have cp: "0 < ?cp" by simp
  have t: "concat (map contentOperations
      (map (with_memo (default_to DEFAULT_MEMO (memo config)) (sender config))
        (chunks_of ?ct (splOperations config)))) = splOperations config"
    using content_packed [OF transfer_capacity_pos spl_closed(3) [OF n]]
    by (simp add: concat_chunks_of [OF transfer_capacity_pos])
  show ?thesis
    using complete_closed [OF rl ok n] concat_creation [OF cp] t d
    by (simp add: provisioningOperations_def)
qed

lemma orchestration_example:
  "map_sum id
     (\<lambda>res. (concat (map instructions (accountCreationTxs res)),
             map destination (concat (map contentOperations (transferTxs res)))))
     (generateCompleteBulkSplTransactions ledger_with_A spl_by_amount) =
   Inr ([createAssociatedTokenAccountInstruction alice
           (AssociatedTokenAddress token (PublicKey ''B'')) (PublicKey ''B'') token,
         createAssociatedTokenAccountInstruction alice
           (AssociatedTokenAddress token (PublicKey ''C'')) (PublicKey ''C'') token],
        [Some (AssociatedTokenAddress token (PublicKey ''A'')),
         Some (AssociatedTokenAddress token (PublicKey ''B'')),
         Some (AssociatedTokenAddress token (PublicKey ''C''))])"
  by code_simp

subsection \<open>The generators with and without the library's exceptions\<close>















section \<open>The claims\<close>

text \<open>
  C1. For \<open>N\<close> transfer requests and a capacity \<open>C \<ge> 1\<close> (given or the default 18),
  \<open>generateBulkSolTransactions\<close> and \<open>generateBulkSplTransactions\<close> return
  \<open>ceil(N / C)\<close> transactions; their content sizes are \<open>C\<close>, \<dots>, \<open>C\<close> followed by
  \<open>N mod C\<close> when that is not zero; and a cut follows input index \<open>i\<close> exactly when
  \<open>(i + 1) mod C = 0\<close> or \<open>i\<close> is the last index.
\<close>

theorem C1_transfer_packing:
  fixes sol :: "'a IBulkSolTransferConfig_scheme" and spl :: "'b IBulkSplTransferConfig_scheme"
  assumes "1 \<le> C"
  shows "(request_count sol = Some N \<and>
          default_to DEFAULT_INSTRUCTIONS_PER_TX (instructionsPerTx sol) = C \<longrightarrow>
            (\<exists>txs. generateBulkSolTransactions sol = Inr txs \<and>
                   fixed_capacity_packing (nat C) N txs)) \<and>
         (request_count spl = Some N \<and>
          default_to DEFAULT_INSTRUCTIONS_PER_TX_TRANSFER (instructionsPerTx spl) = C \<longrightarrow>
            (\<exists>txs. generateBulkSplTransactions spl = Inr txs \<and>
                   fixed_capacity_packing (nat C) N txs))"
proof (intro conjI impI)
  assume h: "request_count sol = Some N \<and>
      default_to DEFAULT_INSTRUCTIONS_PER_TX (instructionsPerTx sol) = C"
  have c: "0 < nat C" using assms by simp
  have "fixed_capacity_packing (nat C) (length (solOperations sol))
      (map (with_memo (default_to DEFAULT_MEMO_SOL (memo sol)) (sender sol))
        (chunks_of (nat C) (solOperations sol)))"
    using h by (intro packing_of_chunks [OF c] sol_closed(3) [of sol N]) simp
  then show "\<exists>txs. generateBulkSolTransactions sol = Inr txs \<and> fixed_capacity_packing (nat C) N txs"
    using h assms sol_closed(1,2) [of sol N] by (simp add: transfer_capacity_positive)
next
  assume h: "request_count spl = Some N \<and>
      default_to DEFAULT_INSTRUCTIONS_PER_TX_TRANSFER (instructionsPerTx spl) = C"
  have c: "0 < nat C" using assms by simp
  have "fixed_capacity_packing (nat C) (length (splOperations spl))
      (map (with_memo (default_to DEFAULT_MEMO (memo spl)) (sender spl))
        (chunks_of (nat C) (splOperations spl)))"
    using h by (intro packing_of_chunks [OF c] spl_closed(3) [of spl N]) simp
  then show "\<exists>txs. generateBulkSplTransactions spl = Inr txs \<and> fixed_capacity_packing (nat C) N txs"
    using h assms spl_closed(1,2) [of spl N] by (simp add: transfer_capacity_positive)
qed

theorem C1_transfer_packing_witness:
  "(1::int) \<le> 2 \<and>
   request_count sol_by_amount = Some 3 \<and>
   default_to DEFAULT_INSTRUCTIONS_PER_TX (instructionsPerTx sol_by_amount) = 2 \<and>
   request_count spl_by_amount = Some 3 \<and>
   default_to DEFAULT_INSTRUCTIONS_PER_TX_TRANSFER (instructionsPerTx spl_by_amount) = 2 \<and>
   (\<exists>txs. generateBulkSolTransactions sol_by_amount = Inr txs \<and> length txs = 2 \<and>
          map (\<lambda>t. length (contentOperations t)) txs = [2, 1] \<and>
          \<not> cut_after txs 0 \<and> cut_after txs 1 \<and> cut_after txs 2) \<and>
   (\<exists>txs. generateBulkSplTransactions spl_by_amount = Inr txs \<and> length txs = 2 \<and>
          map (\<lambda>t. length (contentOperations t)) txs = [2, 1] \<and>
          \<not> cut_after txs 0 \<and> cut_after txs 1 \<and> cut_after txs 2)"
proof -
  have h: "(1::int) \<le> 2" by simp
  have a: "request_count sol_by_amount = Some 3"
    "default_to DEFAULT_INSTRUCTIONS_PER_TX (instructionsPerTx sol_by_amount) = 2"
    by (simp_all add: request_count_def sol_by_amount_def default_to_def)
  have b: "request_count spl_by_amount = Some 3"
    "default_to DEFAULT_INSTRUCTIONS_PER_TX_TRANSFER (instructionsPerTx spl_by_amount) = 2"
    by (simp_all add: request_count_def spl_by_amount_def default_to_def)
  have s: "partition_sizes 2 3 = [2, 1]"
    by code_simp
  have i: "{..<3::nat} = {0, 1, 2}" by auto
  show ?thesis
    using C1_transfer_packing [OF h, of sol_by_amount 3 spl_by_amount] a b
    by (simp add: fixed_capacity_packing_def s i) 
qed

text \<open>
  C2, as the code has it. Whenever a transfer generator has an input, every transaction
  it returns holds exactly one memo instruction, which is its last instruction, and at
  least one transfer instruction; with a capacity of at least 1 a transaction has at
  most capacity + 1 instructions; and an empty input gives no transaction at all.
\<close>

theorem C2_memo_last:
  fixes sol :: "'a IBulkSolTransferConfig_scheme" and spl :: "'b IBulkSplTransferConfig_scheme"
  shows "(request_count sol = Some N \<longrightarrow>
            (\<exists>txs. generateBulkSolTransactions sol = Inr txs \<and>
               (N = 0 \<longrightarrow> txs = []) \<and>
               (\<forall>t \<in> set txs.
                  memo_terminated (default_to DEFAULT_MEMO_SOL (memo sol)) (sender sol) t \<and>
                  (1 \<le> default_to DEFAULT_INSTRUCTIONS_PER_TX (instructionsPerTx sol) \<longrightarrow>
                   int (length (instructions t)) \<le>
                     default_to DEFAULT_INSTRUCTIONS_PER_TX (instructionsPerTx sol) + 1)))) \<and>
         (request_count spl = Some N \<longrightarrow>
            (\<exists>txs. generateBulkSplTransactions spl = Inr txs \<and>
               (N = 0 \<longrightarrow> txs = []) \<and>
               (\<forall>t \<in> set txs.
                  memo_terminated (default_to DEFAULT_MEMO (memo spl)) (sender spl) t \<and>
                  (1 \<le> default_to DEFAULT_INSTRUCTIONS_PER_TX_TRANSFER (instructionsPerTx spl) \<longrightarrow>
                   int (length (instructions t)) \<le>
                     default_to DEFAULT_INSTRUCTIONS_PER_TX_TRANSFER (instructionsPerTx spl) + 1))))"
proof (intro conjI impI)
  assume h: "request_count sol = Some N"
  let ?C = "default_to DEFAULT_INSTRUCTIONS_PER_TX (instructionsPerTx sol)"
  let ?c = "transfer_capacity ?C N"
  let ?mem = "default_to DEFAULT_MEMO_SOL (memo sol)"
  let ?txs = "map (with_memo ?mem (sender sol)) (chunks_of ?c (solOperations sol))"
  have g: "generateBulkSolTransactions sol = Inr ?txs" by (rule sol_closed(1) [OF h])
  have e: "N = 0 \<longrightarrow> ?txs = []"
    using sol_closed(2) [OF h] by (auto simp: chunks_of_Nil)
  have m: "\<forall>t \<in> set ?txs. memo_terminated ?mem (sender sol) t \<and>
      (1 \<le> ?C \<longrightarrow> int (length (instructions t)) \<le> ?C + 1)"
  proof
    fix t assume t: "t \<in> set ?txs"
    have "memo_terminated ?mem (sender sol) t \<and> length (instructions t) \<le> ?c + 1"
      by (rule memo_terminated_chunks [OF transfer_capacity_pos sol_closed(3) [OF h] t])
    then show "memo_terminated ?mem (sender sol) t \<and>
        (1 \<le> ?C \<longrightarrow> int (length (instructions t)) \<le> ?C + 1)"
      by (auto simp: transfer_capacity_positive)
  qed
  show "\<exists>txs. generateBulkSolTransactions sol = Inr txs \<and> (N = 0 \<longrightarrow> txs = []) \<and>
      (\<forall>t \<in> set txs. memo_terminated ?mem (sender sol) t \<and>
         (1 \<le> ?C \<longrightarrow> int (length (instructions t)) \<le> ?C + 1))"
    using g e m by blast
next
  assume h: "request_count spl = Some N"
  let ?C = "default_to DEFAULT_INSTRUCTIONS_PER_TX_TRANSFER (instructionsPerTx spl)"
  let ?c = "transfer_capacity ?C N"
  let ?mem = "default_to DEFAULT_MEMO (memo spl)"
  let ?txs = "map (with_memo ?mem (sender spl)) (chunks_of ?c (splOperations spl))"
  have g: "generateBulkSplTransactions spl = Inr ?txs" by (rule spl_closed(1) [OF h])
  have e: "N = 0 \<longrightarrow> ?txs = []"
    using spl_closed(2) [OF h] by (auto simp: chunks_of_Nil)
  have m: "\<forall>t \<in> set ?txs. memo_terminated ?mem (sender spl) t \<and>
      (1 \<le> ?C \<longrightarrow> int (length (instructions t)) \<le> ?C + 1)"
  proof
    fix t assume t: "t \<in> set ?txs"
    have "memo_terminated ?mem (sender spl) t \<and> length (instructions t) \<le> ?c + 1"
      by (rule memo_terminated_chunks [OF transfer_capacity_pos spl_closed(3) [OF h] t])
    then show "memo_terminated ?mem (sender spl) t \<and>
        (1 \<le> ?C \<longrightarrow> int (length (instructions t)) \<le> ?C + 1)"
      by (auto simp: transfer_capacity_positive)
  qed
  show "\<exists>txs. generateBulkSplTransactions spl = Inr txs \<and> (N = 0 \<longrightarrow> txs = []) \<and>
      (\<forall>t \<in> set txs. memo_terminated ?mem (sender spl) t \<and>
         (1 \<le> ?C \<longrightarrow> int (length (instructions t)) \<le> ?C + 1))"
    using g e m by blast
qed

theorem C2_memo_last_witness:
  "request_count sol_by_amount = Some 3 \<and> request_count spl_by_transfers = Some 2 \<and>
   1 \<le> default_to DEFAULT_INSTRUCTIONS_PER_TX (instructionsPerTx sol_by_amount) \<and>
   1 \<le> default_to DEFAULT_INSTRUCTIONS_PER_TX_TRANSFER (instructionsPerTx spl_by_transfers) \<and>
   (\<exists>txs. generateBulkSolTransactions sol_by_amount = Inr txs \<and> txs \<noteq> [] \<and>
      (\<forall>t \<in> set txs. memo_terminated ''Bulk SOL transfer'' alice t \<and>
                      int (length (instructions t)) \<le> 2 + 1)) \<and>
   (\<exists>txs. generateBulkSplTransactions spl_by_transfers = Inr txs \<and> txs \<noteq> [] \<and>
      (\<forall>t \<in> set txs. memo_terminated ''Bulk SPL transfer'' alice t \<and>
                      int (length (instructions t)) \<le> 18 + 1))"
proof -
  have a: "request_count sol_by_amount = Some 3" "request_count spl_by_transfers = Some 2"
    by (simp_all add: request_count_def sol_by_amount_def spl_by_transfers_def)
  have d: "default_to DEFAULT_INSTRUCTIONS_PER_TX (instructionsPerTx sol_by_amount) = 2"
    "default_to DEFAULT_INSTRUCTIONS_PER_TX_TRANSFER (instructionsPerTx spl_by_transfers) = 18"
    "default_to DEFAULT_MEMO_SOL (memo sol_by_amount) = ''Bulk SOL transfer''"
    "default_to DEFAULT_MEMO (memo spl_by_transfers) = ''Bulk SPL transfer''"
    "sender sol_by_amount = alice" "sender spl_by_transfers = alice"
    by (simp_all add: default_to_def sol_by_amount_def spl_by_transfers_def
        DEFAULT_INSTRUCTIONS_PER_TX_TRANSFER_def DEFAULT_MEMO_SOL_def DEFAULT_MEMO_def)
  have n1: "generateBulkSolTransactions sol_by_amount \<noteq> Inr []"
    by code_simp
  have n2: "generateBulkSplTransactions spl_by_transfers \<noteq> Inr []"
    by code_simp
  show ?thesis
    using C2_memo_last [of sol_by_amount 3 spl_by_transfers] C2_memo_last [of sol_by_amount 2 spl_by_transfers]
      a n1 n2
    by (simp add: d) blast
qed

text \<open>
  C2, as stated, fails for a capacity below one, which the code accepts: with
  \<open>instructionsPerTx = 0\<close> the three transfers and the memo share one transaction of 4
  instructions, more than \<open>0 + 1\<close>; with \<open>instructionsPerTx = -2\<close> the transactions have
  3 and 2 instructions, more than \<open>-2 + 1\<close>.
\<close>

theorem C2_counterexample:
  "(case generateBulkSolTransactions (sol_by_amount\<lparr>instructionsPerTx := Some 0\<rparr>) of
      Inl e \<Rightarrow> [] | Inr txs \<Rightarrow> map (\<lambda>t. int (length (instructions t))) txs) = [4] \<and>
   default_to DEFAULT_INSTRUCTIONS_PER_TX
     (instructionsPerTx (sol_by_amount\<lparr>instructionsPerTx := Some 0\<rparr>)) + 1 = 1 \<and>
   (case generateBulkSplTransactions (spl_by_amount\<lparr>instructionsPerTx := Some (- 2)\<rparr>) of
      Inl e \<Rightarrow> [] | Inr txs \<Rightarrow> map (\<lambda>t. int (length (instructions t))) txs) = [3, 2] \<and>
   default_to DEFAULT_INSTRUCTIONS_PER_TX_TRANSFER
     (instructionsPerTx (spl_by_amount\<lparr>instructionsPerTx := Some (- 2)\<rparr>)) + 1 = - 1"
  by code_simp

text \<open>
  C3, as the code has it. No capacity is rejected. With a capacity \<open>C \<le> 0\<close> a transfer
  generator returns transactions whenever it has an input: all transfers in one
  transaction when \<open>C = 0\<close>, and the packing of capacity \<open>-C\<close> when \<open>C < 0\<close>. The
  account-creation generator, when no lookup rejects, returns one transaction per
  missing account.
\<close>

theorem C3_no_capacity_error:
  fixes sol :: "'a IBulkSolTransferConfig_scheme" and spl :: "'b IBulkSplTransferConfig_scheme"
  assumes "C \<le> 0"
  shows "(request_count sol = Some N \<and> instructionsPerTx sol = Some C \<longrightarrow>
            (\<exists>txs. generateBulkSolTransactions sol = Inr txs \<and>
               (C = 0 \<longrightarrow> length txs = (if N = 0 then 0 else 1)) \<and>
               generateBulkSolTransactions (sol\<lparr>instructionsPerTx := Some (- C)\<rparr>) = Inr txs)) \<and>
         (request_count spl = Some N \<and> instructionsPerTx spl = Some C \<longrightarrow>
            (\<exists>txs. generateBulkSplTransactions spl = Inr txs \<and>
               (C = 0 \<longrightarrow> length txs = (if N = 0 then 0 else 1)) \<and>
               generateBulkSplTransactions (spl\<lparr>instructionsPerTx := Some (- C)\<rparr>) = Inr txs)) \<and>
         ((\<forall>r \<in> set rcpts. \<not> lookupRejects connection mnt r) \<longrightarrow>
            (\<exists>txs. generateTokenAccountCreationTransactions connection mnt payer rcpts (Some C) = Inr txs \<and>
               map instructions txs =
                 map (\<lambda>x. [x]) (provisioningOperations connection mnt payer rcpts)))"
proof (intro conjI impI)
  assume h: "request_count sol = Some N \<and> instructionsPerTx sol = Some C"
  let ?sol' = "sol\<lparr>instructionsPerTx := Some (- C)\<rparr>"
  let ?txs = "map (with_memo (default_to DEFAULT_MEMO_SOL (memo sol)) (sender sol))
      (chunks_of (transfer_capacity C N) (solOperations sol))"
  have "request_count ?sol' = request_count sol" by (simp add: request_count_def)
  then have r': "request_count ?sol' = Some N" using h by simp
  have o': "solOperations ?sol' = solOperations sol" by (simp add: solOperations_def)
  have g: "generateBulkSolTransactions sol = Inr ?txs"
    using sol_closed(1) [of sol N] h by (simp add: default_to_def)
  have g': "generateBulkSolTransactions ?sol' = Inr ?txs"
    using sol_closed(1) [OF r'] by (simp add: default_to_def o' transfer_capacity_minus)
  have l: "C = 0 \<longrightarrow> length ?txs = (if N = 0 then 0 else 1)"
    using sol_closed(2) [of sol N] h chunks_of_whole [of "solOperations sol"]
    by (auto simp: transfer_capacity_def)
  show "\<exists>txs. generateBulkSolTransactions sol = Inr txs \<and>
      (C = 0 \<longrightarrow> length txs = (if N = 0 then 0 else 1)) \<and>
      generateBulkSolTransactions ?sol' = Inr txs"
    using g g' l by blast
next
  assume h: "request_count spl = Some N \<and> instructionsPerTx spl = Some C"
  let ?spl' = "spl\<lparr>instructionsPerTx := Some (- C)\<rparr>"
  let ?txs = "map (with_memo (default_to DEFAULT_MEMO (memo spl)) (sender spl))
      (chunks_of (transfer_capacity C N) (splOperations spl))"
  have "request_count ?spl' = request_count spl" by (simp add: request_count_def)
  then have r': "request_count ?spl' = Some N" using h by simp
  have o': "splOperations ?spl' = splOperations spl" by (simp add: splOperations_def)
  have g: "generateBulkSplTransactions spl = Inr ?txs"
    using spl_closed(1) [of spl N] h by (simp add: default_to_def)
  have g': "generateBulkSplTransactions ?spl' = Inr ?txs"
    using spl_closed(1) [OF r'] by (simp add: default_to_def o' transfer_capacity_minus)
  have l: "C = 0 \<longrightarrow> length ?txs = (if N = 0 then 0 else 1)"
    using spl_closed(2) [of spl N] h chunks_of_whole [of "splOperations spl"]
    by (auto simp: transfer_capacity_def)
  show "\<exists>txs. generateBulkSplTransactions spl = Inr txs \<and>
      (C = 0 \<longrightarrow> length txs = (if N = 0 then 0 else 1)) \<and>
      generateBulkSplTransactions ?spl' = Inr txs"
    using g g' l by blast
next
  assume ok: "\<forall>r \<in> set rcpts. \<not> lookupRejects connection mnt r"
  have "nat (max 1 C) = Suc 0" using assms by (simp add: max_def)
  then have "generateTokenAccountCreationTransactions connection mnt payer rcpts (Some C) =
      Inr (map buildTransaction (map (\<lambda>x. [x]) (provisioningOperations connection mnt payer rcpts)))"
    using creation_closed [OF ok, of payer "Some C"] by (simp add: default_to_def chunks_of_one)
  then show "\<exists>txs. generateTokenAccountCreationTransactions connection mnt payer rcpts (Some C) = Inr txs \<and>
      map instructions txs = map (\<lambda>x. [x]) (provisioningOperations connection mnt payer rcpts)"
    by (simp add: comp_def instructions_buildTransaction)
qed

theorem C3_no_capacity_error_witness:
  "(0::int) \<le> 0 \<and>
   request_count (sol_by_amount\<lparr>instructionsPerTx := Some 0\<rparr>) = Some 3 \<and>
   request_count (spl_by_amount\<lparr>instructionsPerTx := Some 0\<rparr>) = Some 3 \<and>
   \<not> (\<exists>r \<in> set [''A'', ''B'']. lookupRejects empty_ledger token r) \<and>
   (\<exists>txs. generateBulkSolTransactions (sol_by_amount\<lparr>instructionsPerTx := Some 0\<rparr>) = Inr txs \<and>
          length txs = 1) \<and>
   (\<exists>txs. generateBulkSplTransactions (spl_by_amount\<lparr>instructionsPerTx := Some 0\<rparr>) = Inr txs \<and>
          length txs = 1) \<and>
   (\<exists>txs. generateTokenAccountCreationTransactions empty_ledger token alice [''A'', ''B''] (Some 0) = Inr txs \<and>
          map instructions txs =
            [[fst (createTokenAccountInstruction alice token (PublicKey ''A''))],
             [fst (createTokenAccountInstruction alice token (PublicKey ''B''))]])"
proof -
  have h: "(0::int) \<le> 0" by simp
  have a: "request_count (sol_by_amount\<lparr>instructionsPerTx := Some 0\<rparr>) = Some 3"
    "instructionsPerTx (sol_by_amount\<lparr>instructionsPerTx := Some 0\<rparr>) = Some 0"
    "request_count (spl_by_amount\<lparr>instructionsPerTx := Some 0\<rparr>) = Some 3"
    "instructionsPerTx (spl_by_amount\<lparr>instructionsPerTx := Some 0\<rparr>) = Some 0"
    by (simp_all add: request_count_def sol_by_amount_def spl_by_amount_def)
  have b: "\<forall>r \<in> set [''A'', ''B'']. \<not> lookupRejects empty_ledger token r"
    by (simp add: lookupRejects_def empty_ledger_def)
  have p: "provisioningOperations empty_ledger token alice [''A'', ''B''] =
      [fst (createTokenAccountInstruction alice token (PublicKey ''A'')),
       fst (createTokenAccountInstruction alice token (PublicKey ''B''))]"
    by (simp add: provisioningOperations_def accountMissing_def empty_ledger_def)
  have "(\<exists>txs. generateBulkSolTransactions (sol_by_amount\<lparr>instructionsPerTx := Some 0\<rparr>) = Inr txs \<and>
          length txs = (if (3::nat) = 0 then 0 else 1))"
    and "(\<exists>txs. generateBulkSplTransactions (spl_by_amount\<lparr>instructionsPerTx := Some 0\<rparr>) = Inr txs \<and>
          length txs = (if (3::nat) = 0 then 0 else 1))"
    and "(\<exists>txs. generateTokenAccountCreationTransactions empty_ledger token alice [''A'', ''B''] (Some 0) = Inr txs \<and>
          map instructions txs = map (\<lambda>x. [x]) (provisioningOperations empty_ledger token alice [''A'', ''B'']))"
    using C3_no_capacity_error [OF h, of "sol_by_amount\<lparr>instructionsPerTx := Some 0\<rparr>" 3
        "spl_by_amount\<lparr>instructionsPerTx := Some 0\<rparr>" "[''A'', ''B'']" empty_ledger token alice]
      a b
    by blast+
  then show ?thesis
    using a(1,3) b unfolding p by simp
qed

text \<open>
  C3, as stated, fails: with capacity 0 or -2 the transfer generators return
  transactions, and with capacity 0 the account-creation generator performs its lookups
  and returns transactions.
\<close>

theorem C3_counterexample:
  "generateBulkSolTransactions (sol_by_amount\<lparr>instructionsPerTx := Some 0\<rparr>) =
     Inr [Transaction
           [SystemProgram_transfer alice (PublicKey ''A'') 5,
            SystemProgram_transfer alice (PublicKey ''B'') 5,
            SystemProgram_transfer alice (PublicKey ''C'') 5,
            TransactionInstruction [(alice, True, True)] ''Bulk SOL transfer'' MEMO_PROGRAM_ID]] \<and>
   generateBulkSplTransactions (spl_by_amount\<lparr>instructionsPerTx := Some (- 2)\<rparr>) =
     Inr [Transaction
           [createTransferInstruction (AssociatedTokenAddress token alice)
              (AssociatedTokenAddress token (PublicKey ''A'')) alice 5,
            createTransferInstruction (AssociatedTokenAddress token alice)
              (AssociatedTokenAddress token (PublicKey ''B'')) alice 5,
            TransactionInstruction [(alice, True, True)] ''Bulk SPL transfer'' MEMO_PROGRAM_ID],
          Transaction
           [createTransferInstruction (AssociatedTokenAddress token alice)
              (AssociatedTokenAddress token (PublicKey ''C'')) alice 5,
            TransactionInstruction [(alice, True, True)] ''Bulk SPL transfer'' MEMO_PROGRAM_ID]] \<and>
   generateTokenAccountCreationTransactions empty_ledger token alice [''A'', ''B''] (Some 0) =
     Inr [Transaction
           [createAssociatedTokenAccountInstruction alice
              (AssociatedTokenAddress token (PublicKey ''A'')) (PublicKey ''A'') token],
          Transaction
           [createAssociatedTokenAccountInstruction alice
              (AssociatedTokenAddress token (PublicKey ''B'')) (PublicKey ''B'') token]]"
  by code_simp

text \<open>
  C4, as the code has it. The configuration has one capacity option,
  \<open>instructionsPerTx\<close>. Left undefined, account creation packs at 12 and transfers pack
  at 18; set to \<open>C \<ge> 1\<close>, both phases pack at \<open>C\<close>.
\<close>

theorem C4_single_capacity_option:
  fixes config :: "'a IBulkSplTransferConfig_scheme"
  assumes "generateCompleteBulkSplTransactions connection config = Inr res"
    and "recipientList config = Inr rcpts"
    and "request_count config = Some N"
    and "M = length (filter (accountMissing connection (mint config)) rcpts)"
  shows "(instructionsPerTx config = None \<longrightarrow>
            map (\<lambda>t. length (instructions t)) (accountCreationTxs res) = partition_sizes 12 M \<and>
            map (\<lambda>t. length (contentOperations t)) (transferTxs res) = partition_sizes 18 N) \<and>
         (instructionsPerTx config = Some C \<and> 1 \<le> C \<longrightarrow>
            map (\<lambda>t. length (instructions t)) (accountCreationTxs res) = partition_sizes (nat C) M \<and>
            map (\<lambda>t. length (contentOperations t)) (transferTxs res) = partition_sizes (nat C) N)"
proof -
  let ?ops = "provisioningOperations connection (mint config) (sender config) rcpts"
  have ok: "\<forall>r \<in> set rcpts. \<not> lookupRejects connection (mint config) r"
    using complete_succeeds [OF assms(1)] assms(2) by auto
  have m: "length ?ops = M" using assms(4) by (simp add: provisioningOperations_def)
  have n: "length (splOperations config) = N" by (rule spl_closed(2) [OF assms(3)])
  have sizes: "\<And>cp ct.
      nat (max 1 (default_to DEFAULT_INSTRUCTIONS_PER_TX_ACCOUNT_CREATION (instructionsPerTx config))) = cp \<Longrightarrow>
      transfer_capacity (default_to DEFAULT_INSTRUCTIONS_PER_TX_TRANSFER (instructionsPerTx config)) N = ct \<Longrightarrow>
      0 < cp \<Longrightarrow> 0 < ct \<Longrightarrow>
      map (\<lambda>t. length (instructions t)) (accountCreationTxs res) = partition_sizes cp M \<and>
      map (\<lambda>t. length (contentOperations t)) (transferTxs res) = partition_sizes ct N"
  proof -
    fix cp ct
    assume cp: "nat (max 1 (default_to DEFAULT_INSTRUCTIONS_PER_TX_ACCOUNT_CREATION
        (instructionsPerTx config))) = cp"
      and ct: "transfer_capacity (default_to DEFAULT_INSTRUCTIONS_PER_TX_TRANSFER
        (instructionsPerTx config)) N = ct"
      and pos: "0 < cp" "0 < ct"
    let ?mem = "default_to DEFAULT_MEMO (memo config)"
    have res: "res = \<lparr>accountCreationTxs = map buildTransaction (chunks_of cp ?ops),
        transferTxs = map (with_memo ?mem (sender config)) (chunks_of ct (splOperations config))\<rparr>"
      using complete_closed [OF assms(2) ok assms(3)] assms(1) cp ct by simp
    have a: "map (\<lambda>t. length (instructions t)) (map buildTransaction (chunks_of cp ?ops)) =
        partition_sizes cp M"
      using creation_sizes [OF pos(1), of ?ops] m by simp
    have "fixed_capacity_packing ct (length (splOperations config))
        (map (with_memo ?mem (sender config)) (chunks_of ct (splOperations config)))"
      by (rule packing_of_chunks [OF pos(2) spl_closed(3) [OF assms(3)]])
    then have b: "map (\<lambda>t. length (contentOperations t))
        (map (with_memo ?mem (sender config)) (chunks_of ct (splOperations config))) =
        partition_sizes ct N"
      using n by (simp add: fixed_capacity_packing_def)
    show "map (\<lambda>t. length (instructions t)) (accountCreationTxs res) = partition_sizes cp M \<and>
        map (\<lambda>t. length (contentOperations t)) (transferTxs res) = partition_sizes ct N"
      using a b by (simp add: res)
  qed
  show ?thesis
  proof (intro conjI impI)
    assume "instructionsPerTx config = None"
    then have "nat (max 1 (default_to DEFAULT_INSTRUCTIONS_PER_TX_ACCOUNT_CREATION
          (instructionsPerTx config))) = 12"
      and "transfer_capacity (default_to DEFAULT_INSTRUCTIONS_PER_TX_TRANSFER
          (instructionsPerTx config)) N = 18"
      by (simp_all add: default_to_def DEFAULT_INSTRUCTIONS_PER_TX_ACCOUNT_CREATION_def
          DEFAULT_INSTRUCTIONS_PER_TX_TRANSFER_def transfer_capacity_def)
    from sizes [OF this]
    show "map (\<lambda>t. length (instructions t)) (accountCreationTxs res) = partition_sizes 12 M"
      and "map (\<lambda>t. length (contentOperations t)) (transferTxs res) = partition_sizes 18 N"
      by simp_all
  next
    assume "instructionsPerTx config = Some C \<and> 1 \<le> C"
    then have "nat (max 1 (default_to DEFAULT_INSTRUCTIONS_PER_TX_ACCOUNT_CREATION
          (instructionsPerTx config))) = nat C"
      and "transfer_capacity (default_to DEFAULT_INSTRUCTIONS_PER_TX_TRANSFER
          (instructionsPerTx config)) N = nat C"
      and "0 < nat C"
      by (simp_all add: default_to_def transfer_capacity_def max_def)
    from sizes [OF this(1,2,3,3)]
    show "map (\<lambda>t. length (instructions t)) (accountCreationTxs res) = partition_sizes (nat C) M"
      and "map (\<lambda>t. length (contentOperations t)) (transferTxs res) = partition_sizes (nat C) N"
      by simp_all
  qed
qed

theorem C4_single_capacity_option_witness:
  "(\<exists>res. generateCompleteBulkSplTransactions empty_ledger spl_25 = Inr res \<and>
      recipientList spl_25 = Inr recipients25 \<and> request_count spl_25 = Some 25 \<and>
      length (filter (accountMissing empty_ledger (mint spl_25)) recipients25) = 25 \<and>
      instructionsPerTx spl_25 = None \<and>
      map (\<lambda>t. length (instructions t)) (accountCreationTxs res) = [12, 12, 1] \<and>
      map (\<lambda>t. length (contentOperations t)) (transferTxs res) = [18, 7]) \<and>
   (\<exists>res. generateCompleteBulkSplTransactions empty_ledger spl_by_amount = Inr res \<and>
      recipientList spl_by_amount = Inr [''A'', ''B'', ''C''] \<and> request_count spl_by_amount = Some 3 \<and>
      length (filter (accountMissing empty_ledger (mint spl_by_amount)) [''A'', ''B'', ''C'']) = 3 \<and>
      instructionsPerTx spl_by_amount = Some 2 \<and> (1::int) \<le> 2 \<and>
      map (\<lambda>t. length (instructions t)) (accountCreationTxs res) = [2, 1] \<and>
      map (\<lambda>t. length (contentOperations t)) (transferTxs res) = [2, 1])"
proof -
  have ok: "\<And>rcpts m. \<forall>r \<in> set rcpts. \<not> lookupRejects empty_ledger m r"
    by (simp add: lookupRejects_def empty_ledger_def)
  have a: "recipientList spl_25 = Inr recipients25" "request_count spl_25 = Some 25"
    "length (filter (accountMissing empty_ledger (mint spl_25)) recipients25) = 25"
    "instructionsPerTx spl_25 = None"
    by (simp_all add: recipientList_def request_count_def spl_25_def accountMissing_def
        empty_ledger_def recipients25_def)
  have b: "recipientList spl_by_amount = Inr [''A'', ''B'', ''C'']"
    "request_count spl_by_amount = Some 3"
    "length (filter (accountMissing empty_ledger (mint spl_by_amount)) [''A'', ''B'', ''C'']) = 3"
    "instructionsPerTx spl_by_amount = Some 2 \<and> (1::int) \<le> 2"
    by (simp_all add: recipientList_def request_count_def spl_by_amount_def accountMissing_def
        empty_ledger_def)
  have s: "partition_sizes 12 25 = [12, 12, 1]" "partition_sizes 18 25 = [18, 7]"
    "partition_sizes 2 3 = [2, 1]"
    by code_simp+
  have n2: "nat 2 = 2" by simp
  obtain res1 where r1: "generateCompleteBulkSplTransactions empty_ledger spl_25 = Inr res1"
    using complete_closed [OF a(1) ok a(2)] by blast
  obtain res2 where r2: "generateCompleteBulkSplTransactions empty_ledger spl_by_amount = Inr res2"
    using complete_closed [OF b(1) ok b(2)] by blast
  have f1: "map (\<lambda>t. length (instructions t)) (accountCreationTxs res1) = [12, 12, 1]"
    "map (\<lambda>t. length (contentOperations t)) (transferTxs res1) = [18, 7]"
    using C4_single_capacity_option [OF r1 a(1) a(2) a(3) [symmetric], of 2] a(4)
    unfolding s by blast+
  have f2: "map (\<lambda>t. length (instructions t)) (accountCreationTxs res2) = [2, 1]"
    "map (\<lambda>t. length (contentOperations t)) (transferTxs res2) = [2, 1]"
    using C4_single_capacity_option [OF r2 b(1) b(2) b(3) [symmetric], of 2] b(4)
    unfolding n2 s by blast+
  show ?thesis
  proof (intro conjI)
    show "\<exists>res. generateCompleteBulkSplTransactions empty_ledger spl_25 = Inr res \<and>
      recipientList spl_25 = Inr recipients25 \<and> request_count spl_25 = Some 25 \<and>
      length (filter (accountMissing empty_ledger (mint spl_25)) recipients25) = 25 \<and>
      instructionsPerTx spl_25 = None \<and>
      map (\<lambda>t. length (instructions t)) (accountCreationTxs res) = [12, 12, 1] \<and>
      map (\<lambda>t. length (contentOperations t)) (transferTxs res) = [18, 7]"
      by (intro exI [of _ res1] conjI r1 a f1)
    show "\<exists>res. generateCompleteBulkSplTransactions empty_ledger spl_by_amount = Inr res \<and>
      recipientList spl_by_amount = Inr [''A'', ''B'', ''C''] \<and> request_count spl_by_amount = Some 3 \<and>
      length (filter (accountMissing empty_ledger (mint spl_by_amount)) [''A'', ''B'', ''C'']) = 3 \<and>
      instructionsPerTx spl_by_amount = Some 2 \<and> (1::int) \<le> 2 \<and>
      map (\<lambda>t. length (instructions t)) (accountCreationTxs res) = [2, 1] \<and>
      map (\<lambda>t. length (contentOperations t)) (transferTxs res) = [2, 1]"
      by (intro exI [of _ res2] conjI r2 b(1,2,3) b(4) [THEN conjunct1] b(4) [THEN conjunct2] f2)
  qed
qed

text \<open>
  C4, as stated, fails: the only capacity option sets both phases. For three recipients
  without accounts, leaving \<open>instructionsPerTx\<close> undefined gives one account-creation
  transaction and one transfer transaction of three each; setting it to 1 splits both
  lists into three transactions of one.
\<close>

theorem C4_counterexample:
  "bundle_sizes (generateCompleteBulkSplTransactions empty_ledger
       (spl_by_amount\<lparr>instructionsPerTx := None\<rparr>)) = Inr ([3], [3]) \<and>
   bundle_sizes (generateCompleteBulkSplTransactions empty_ledger
       (spl_by_amount\<lparr>instructionsPerTx := Some 1\<rparr>)) = Inr ([1, 1, 1], [1, 1, 1])"
  by code_simp

text \<open>
  C5 at a configuration with \<open>recipients = [A]\<close>, no \<open>fixedAmount\<close> and
  \<open>transfers = [{B, 10}]\<close>, on a ledger without token accounts: the lookup and the
  account creation are for A, the only transfer pays B. A gets no transfer, and B's
  account is neither looked up nor created.
\<close>

theorem C5_failing_input:
  "generateCompleteBulkSplTransactions empty_ledger spl_mismatch =
     Inr \<lparr>accountCreationTxs =
            [Transaction
              [createAssociatedTokenAccountInstruction alice
                 (AssociatedTokenAddress token (PublicKey ''A'')) (PublicKey ''A'') token]],
          transferTxs =
            [Transaction
              [createTransferInstruction (AssociatedTokenAddress token alice)
                 (AssociatedTokenAddress token (PublicKey ''B'')) alice 10,
               TransactionInstruction [(alice, True, True)] ''Bulk SPL transfer'' MEMO_PROGRAM_ID]]\<rparr>"
  by code_simp




text \<open>
  C7. The transfer instructions of the returned transactions, read in order and without
  the memo instructions, are the input mapped one to one through the builder: one
  instruction per recipient with the fixed amount, or one per transfer with its own
  amount, in input order, nothing dropped, merged or moved.
\<close>

theorem C7_order_preserved:
  fixes sol :: "'a IBulkSolTransferConfig_scheme" and spl :: "'b IBulkSplTransferConfig_scheme"
  shows "(fixedAmount sol = Some a \<and> recipients sol = Some rs \<longrightarrow>
            (\<exists>txs. generateBulkSolTransactions sol = Inr txs \<and>
               concat (map contentOperations txs) =
                 map (\<lambda>r. createSolTransferInstruction (sender sol) (PublicKey r) a) rs)) \<and>
         ((fixedAmount sol = None \<or> recipients sol = None) \<and> transfers sol = Some ts \<longrightarrow>
            (\<exists>txs. generateBulkSolTransactions sol = Inr txs \<and>
               concat (map contentOperations txs) =
                 map (\<lambda>t. createSolTransferInstruction (sender sol) (PublicKey (recipient t)) (amount t)) ts)) \<and>
         (fixedAmount spl = Some a \<and> recipients spl = Some rs \<longrightarrow>
            (\<exists>txs. generateBulkSplTransactions spl = Inr txs \<and>
               concat (map contentOperations txs) =
                 map (\<lambda>r. createSplTransferInstructionByOwners (mint spl) (sender spl) (PublicKey r) a) rs)) \<and>
         ((fixedAmount spl = None \<or> recipients spl = None) \<and> transfers spl = Some ts \<longrightarrow>
            (\<exists>txs. generateBulkSplTransactions spl = Inr txs \<and>
               concat (map contentOperations txs) =
                 map (\<lambda>t. createSplTransferInstructionByOwners (mint spl) (sender spl)
                        (PublicKey (recipient t)) (amount t)) ts))"
proof (intro conjI impI)
  assume h: "fixedAmount sol = Some a \<and> recipients sol = Some rs"
  then have "request_count sol = Some (length rs)" by (simp add: request_count_def)
  from sol_content [OF this] h
  show "\<exists>txs. generateBulkSolTransactions sol = Inr txs \<and>
      concat (map contentOperations txs) =
        map (\<lambda>r. createSolTransferInstruction (sender sol) (PublicKey r) a) rs"
    by (simp add: solOperations_def)
next
  assume h: "(fixedAmount sol = None \<or> recipients sol = None) \<and> transfers sol = Some ts"
  then have "request_count sol = Some (length ts)" by (auto simp: request_count_def)
  from sol_content [OF this] h
  show "\<exists>txs. generateBulkSolTransactions sol = Inr txs \<and>
      concat (map contentOperations txs) =
        map (\<lambda>t. createSolTransferInstruction (sender sol) (PublicKey (recipient t)) (amount t)) ts"
    by (auto simp: solOperations_def)
next
  assume h: "fixedAmount spl = Some a \<and> recipients spl = Some rs"
  then have "request_count spl = Some (length rs)" by (simp add: request_count_def)
  from spl_content [OF this] h
  show "\<exists>txs. generateBulkSplTransactions spl = Inr txs \<and>
      concat (map contentOperations txs) =
        map (\<lambda>r. createSplTransferInstructionByOwners (mint spl) (sender spl) (PublicKey r) a) rs"
    by (simp add: splOperations_def)
next
  assume h: "(fixedAmount spl = None \<or> recipients spl = None) \<and> transfers spl = Some ts"
  then have "request_count spl = Some (length ts)" by (auto simp: request_count_def)
  from spl_content [OF this] h
  show "\<exists>txs. generateBulkSplTransactions spl = Inr txs \<and>
      concat (map contentOperations txs) =
        map (\<lambda>t. createSplTransferInstructionByOwners (mint spl) (sender spl)
               (PublicKey (recipient t)) (amount t)) ts"
    by (auto simp: splOperations_def)
qed

theorem C7_order_preserved_witness:
  "(\<exists>txs. generateBulkSolTransactions sol_by_transfers = Inr txs \<and>
      concat (map contentOperations txs) =
        [createSolTransferInstruction alice (PublicKey ''A'') 10,
         createSolTransferInstruction alice (PublicKey ''B'') 20]) \<and>
   (\<exists>txs. generateBulkSolTransactions sol_by_amount = Inr txs \<and>
      concat (map contentOperations txs) =
        [createSolTransferInstruction alice (PublicKey ''A'') 5,
         createSolTransferInstruction alice (PublicKey ''B'') 5,
         createSolTransferInstruction alice (PublicKey ''C'') 5]) \<and>
   (\<exists>txs. generateBulkSplTransactions spl_by_transfers = Inr txs \<and>
      concat (map contentOperations txs) =
        [createSplTransferInstructionByOwners token alice (PublicKey ''A'') 10,
         createSplTransferInstructionByOwners token alice (PublicKey ''B'') 20]) \<and>
   (\<exists>txs. generateBulkSplTransactions spl_by_amount = Inr txs \<and>
      concat (map contentOperations txs) =
        [createSplTransferInstructionByOwners token alice (PublicKey ''A'') 5,
         createSplTransferInstructionByOwners token alice (PublicKey ''B'') 5,
         createSplTransferInstructionByOwners token alice (PublicKey ''C'') 5])"
proof -
  let ?ts = "[\<lparr>recipient = ''A'', amount = 10, associatedTokenAccount = None\<rparr>,
              \<lparr>recipient = ''B'', amount = 20, associatedTokenAccount = None\<rparr>]"
  have 1: "(fixedAmount sol_by_transfers = None \<or> recipients sol_by_transfers = None) \<and>
      transfers sol_by_transfers = Some ?ts"
    and 2: "fixedAmount sol_by_amount = Some 5 \<and> recipients sol_by_amount = Some [''A'', ''B'', ''C'']"
    and 3: "(fixedAmount spl_by_transfers = None \<or> recipients spl_by_transfers = None) \<and>
      transfers spl_by_transfers = Some ?ts"
    and 4: "fixedAmount spl_by_amount = Some 5 \<and> recipients spl_by_amount = Some [''A'', ''B'', ''C'']"
    by (simp_all add: sol_by_transfers_def sol_by_amount_def spl_by_transfers_def spl_by_amount_def)
  have s: "sender sol_by_transfers = alice" "sender sol_by_amount = alice"
    "sender spl_by_transfers = alice" "sender spl_by_amount = alice"
    "mint spl_by_transfers = token" "mint spl_by_amount = token"
    by (simp_all add: sol_by_transfers_def sol_by_amount_def spl_by_transfers_def spl_by_amount_def)
  show ?thesis
    using C7_order_preserved [of sol_by_amount 5 "[''A'', ''B'', ''C'']" ?ts spl_by_amount]
      C7_order_preserved [of sol_by_transfers 5 "[''A'', ''B'', ''C'']" ?ts spl_by_transfers]
      1 2 3 4
    by (simp add: s)
qed

text \<open>
  C8. For recipients of which \<open>M\<close> lack a token account, a capacity \<open>C \<ge> 1\<close> (given or
  the default 12) and lookups that all complete,
  \<open>generateTokenAccountCreationTransactions\<close> returns \<open>ceil(M / C)\<close> transactions of
  sizes \<open>C\<close>, \<dots>, \<open>C\<close> followed by \<open>M mod C\<close> when that is not zero. Whatever the
  capacity, no transaction it returns holds a memo instruction.
\<close>

theorem C8_provisioning_packing:
  shows "(1 \<le> C \<and>
          default_to DEFAULT_INSTRUCTIONS_PER_TX_ACCOUNT_CREATION perTx_arg = C \<and>
          (\<forall>r \<in> set rcpts. \<not> lookupRejects connection mnt r) \<and>
          M = length (filter (accountMissing connection mnt) rcpts) \<longrightarrow>
            (\<exists>txs. generateTokenAccountCreationTransactions connection mnt payer rcpts perTx_arg = Inr txs \<and>
               length txs = (M + nat C - 1) div nat C \<and>
               map (\<lambda>t. length (instructions t)) txs = partition_sizes (nat C) M)) \<and>
         (\<forall>txs. generateTokenAccountCreationTransactions connection mnt payer rcpts perTx_arg = Inr txs \<longrightarrow>
            (\<forall>t \<in> set txs. memoOperations t = []))"
proof (intro conjI impI allI)
  assume h: "1 \<le> C \<and>
      default_to DEFAULT_INSTRUCTIONS_PER_TX_ACCOUNT_CREATION perTx_arg = C \<and>
      (\<forall>r \<in> set rcpts. \<not> lookupRejects connection mnt r) \<and>
      M = length (filter (accountMissing connection mnt) rcpts)"
  let ?ops = "provisioningOperations connection mnt payer rcpts"
  let ?txs = "map buildTransaction (chunks_of (nat C) ?ops)"
  have c: "0 < nat C" using h by simp
  have ok: "\<forall>r \<in> set rcpts. \<not> lookupRejects connection mnt r" using h by simp
  have m: "length ?ops = M" using h by (simp add: provisioningOperations_def)
  have "nat (max 1 C) = nat C" using h by (simp add: max_def)
  then have g: "generateTokenAccountCreationTransactions connection mnt payer rcpts perTx_arg = Inr ?txs"
    using creation_closed [OF ok, of payer perTx_arg] h by simp
  have l: "length ?txs = (M + nat C - 1) div nat C"
    using length_chunks_of [OF c, of ?ops] m by simp
  have s: "map (\<lambda>t. length (instructions t)) ?txs = partition_sizes (nat C) M"
    using creation_sizes [OF c, of ?ops] m by simp
  show "\<exists>txs. generateTokenAccountCreationTransactions connection mnt payer rcpts perTx_arg = Inr txs \<and>
      length txs = (M + nat C - 1) div nat C \<and>
      map (\<lambda>t. length (instructions t)) txs = partition_sizes (nat C) M"
    using g l s by blast
next
  fix txs
  assume g: "generateTokenAccountCreationTransactions connection mnt payer rcpts perTx_arg = Inr txs"
  let ?c = "nat (max 1 (default_to DEFAULT_INSTRUCTIONS_PER_TX_ACCOUNT_CREATION perTx_arg))"
  have c: "0 < ?c" by simp
  have "txs = map buildTransaction (chunks_of ?c (provisioningOperations connection mnt payer rcpts))"
    using creation_closed [OF creation_completes [OF g], of payer perTx_arg] g by simp
  then show "\<forall>t \<in> set txs. memoOperations t = []"
    using creation_no_memo [OF c, of "provisioningOperations connection mnt payer rcpts"]
      not_isMemo_provisioning
    by blast
qed

theorem C8_provisioning_packing_witness:
  "(1::int) \<le> 12 \<and>
   default_to DEFAULT_INSTRUCTIONS_PER_TX_ACCOUNT_CREATION None = 12 \<and>
   \<not> (\<exists>r \<in> set recipients25. lookupRejects empty_ledger token r) \<and>
   25 = length (filter (accountMissing empty_ledger token) recipients25) \<and>
   (\<exists>txs. generateTokenAccountCreationTransactions empty_ledger token alice recipients25 None = Inr txs \<and>
      length txs = 3 \<and>
      map (\<lambda>t. length (instructions t)) txs = [12, 12, 1] \<and>
      (\<forall>t \<in> set txs. memoOperations t = []))"
proof -
  have h1: "(1::int) \<le> 12" by simp
  have h2: "default_to DEFAULT_INSTRUCTIONS_PER_TX_ACCOUNT_CREATION None = 12"
    by (simp add: default_to_def DEFAULT_INSTRUCTIONS_PER_TX_ACCOUNT_CREATION_def)
  have h3: "\<forall>r \<in> set recipients25. \<not> lookupRejects empty_ledger token r"
    by (simp add: lookupRejects_def empty_ledger_def)
  have h4: "25 = length (filter (accountMissing empty_ledger token) recipients25)"
    by (simp add: accountMissing_def empty_ledger_def recipients25_def)
  have s: "partition_sizes 12 25 = [12, 12, 1]" by code_simp
  have "\<exists>txs. generateTokenAccountCreationTransactions empty_ledger token alice recipients25 None = Inr txs \<and>
      length txs = (25 + nat 12 - 1) div nat 12 \<and>
      map (\<lambda>t. length (instructions t)) txs = partition_sizes (nat 12) 25"
    and "\<forall>txs. generateTokenAccountCreationTransactions empty_ledger token alice recipients25 None = Inr txs \<longrightarrow>
      (\<forall>t \<in> set txs. memoOperations t = [])"
    using C8_provisioning_packing [of 12 None recipients25 empty_ledger token 25 alice] h1 h2 h3 h4
    by blast+
  then have "\<exists>txs. generateTokenAccountCreationTransactions empty_ledger token alice recipients25 None = Inr txs \<and>
      length txs = 3 \<and> map (\<lambda>t. length (instructions t)) txs = [12, 12, 1] \<and>
      (\<forall>t \<in> set txs. memoOperations t = [])"
    by (auto simp: s)
  then show ?thesis
    using h2 h3 h4 by simp
qed

text \<open>
  C9. When the lookup of any recipient of the derived list rejects,
  \<open>generateCompleteBulkSplTransactions\<close> fails with the error of a rejected lookup and
  returns nothing else; and every call ends either with an error or with both
  transaction lists.
\<close>

theorem C9_lookup_failure:
  fixes config :: "'a IBulkSplTransferConfig_scheme"
  shows "(recipientList config = Inr rcpts \<and> r \<in> set rcpts \<and>
          lookupRejects connection (mint config) r \<longrightarrow>
            (\<exists>e. generateCompleteBulkSplTransactions connection config = Inl e \<and>
                 (\<exists>r' \<in> set rcpts.
                    getAccountInfo connection
                      (getAssociatedTokenAddressSync (mint config) (PublicKey r')) = Inl e))) \<and>
         ((\<exists>e. generateCompleteBulkSplTransactions connection config = Inl e) \<or>
          (\<exists>creationTxs txs. generateCompleteBulkSplTransactions connection config =
             Inr \<lparr>accountCreationTxs = creationTxs, transferTxs = txs\<rparr>))"
proof (intro conjI impI)
  assume h: "recipientList config = Inr rcpts \<and> r \<in> set rcpts \<and>
      lookupRejects connection (mint config) r"
  then have "\<exists>e. generateTokenAccountCreationTransactions connection (mint config)
      (sender config) rcpts (instructionsPerTx config) = Inl e"
    by (intro creation_rejects [of r]) simp_all
  then obtain e where e: "generateTokenAccountCreationTransactions connection (mint config)
      (sender config) rcpts (instructionsPerTx config) = Inl e" ..
  have "generateCompleteBulkSplTransactions connection config = Inl e"
    using h e by (simp add: generateCompleteBulkSplTransactions_def)
  then show "\<exists>e. generateCompleteBulkSplTransactions connection config = Inl e \<and>
      (\<exists>r' \<in> set rcpts. getAccountInfo connection
         (getAssociatedTokenAddressSync (mint config) (PublicKey r')) = Inl e)"
    using creation_error_source [OF e] by blast
next
  show "(\<exists>e. generateCompleteBulkSplTransactions connection config = Inl e) \<or>
      (\<exists>creationTxs txs. generateCompleteBulkSplTransactions connection config =
         Inr \<lparr>accountCreationTxs = creationTxs, transferTxs = txs\<rparr>)"
    by (cases "generateCompleteBulkSplTransactions connection config")
       (auto intro: OrchestrationResult.cases)
qed

theorem C9_lookup_failure_witness:
  "recipientList spl_by_amount = Inr [''A'', ''B'', ''C''] \<and> ''B'' \<in> set [''A'', ''B'', ''C''] \<and>
   lookupRejects failing_ledger (mint spl_by_amount) ''B'' \<and>
   generateCompleteBulkSplTransactions failing_ledger spl_by_amount = Inl (Error ''timeout'')"
proof -
  have h: "recipientList spl_by_amount = Inr [''A'', ''B'', ''C''] \<and> ''B'' \<in> set [''A'', ''B'', ''C''] \<and>
      lookupRejects failing_ledger (mint spl_by_amount) ''B''"
    by (simp add: recipientList_def spl_by_amount_def lookupRejects_def failing_ledger_def)
  have "\<exists>e. generateCompleteBulkSplTransactions failing_ledger spl_by_amount = Inl e \<and>
      (\<exists>r' \<in> set [''A'', ''B'', ''C'']. getAccountInfo failing_ledger
         (getAssociatedTokenAddressSync (mint spl_by_amount) (PublicKey r')) = Inl e)"
    using C9_lookup_failure [of spl_by_amount "[''A'', ''B'', ''C'']" "''B''" failing_ledger] h
    by blast
  then have "generateCompleteBulkSplTransactions failing_ledger spl_by_amount = Inl (Error ''timeout'')"
    by (auto simp: failing_ledger_def split: if_splits)
  then show ?thesis using h by blast
qed




end
